theory Spec2Isabelle
  imports Main "HOL-Library.Log_Nat"
begin

unbundle bit_operations_syntax

section \<open>Text and exceptions\<close>

text \<open>
  In \<^verbatim>\<open>tools.py\<close> a Python \<^verbatim>\<open>str\<close> is a sequence of Unicode code points; the codec
  turns them into UTF-8 bytes and back, so the code points are kept as numbers.
  \<open>lit\<close> writes an ASCII literal of the source.
\<close>

type_synonym str = "nat list"

definition lit :: "string \<Rightarrow> str" where
  "lit s = map of_char s"

text \<open>
  The exceptions the modelled code can raise. \<^verbatim>\<open>UnicodeDecodeError\<close> and
  \<^verbatim>\<open>UnicodeEncodeError\<close> are caught inside \<^verbatim>\<open>tools.py\<close> and never leave it.
  \<^verbatim>\<open>TypeError\<close> is what \<^verbatim>\<open>bytes(None)\<close>, \<^verbatim>\<open>list + None\<close> and an unhashable
  dictionary key raise, \<^verbatim>\<open>IndexError\<close> what \<^verbatim>\<open>CHARSET[d]\<close> raises out of range,
  \<^verbatim>\<open>AttributeError\<close> a missing method or attribute, \<^verbatim>\<open>KeyError\<close> a missing
  dictionary key, \<^verbatim>\<open>OverflowError\<close> a quotient too large for a float.
  \<^verbatim>\<open>ValidationError\<close> is pydantic's, with one (location, message) pair per failed
  field; \<^verbatim>\<open>LnurlResponseException\<close> is the one of \<^verbatim>\<open>lnurl.exceptions\<close>.
\<close>

datatype exn =
    ValueError str
  | TypeError
  | IndexError
  | AttributeError
  | KeyError
  | OverflowError
  | ValidationError "(str \<times> str) list"
  | LnurlResponseException

text \<open>
  \<^verbatim>\<open>str.upper()\<close> and \<^verbatim>\<open>str.lower()\<close>, on ASCII letters; other code points are
  left alone. \<^verbatim>\<open>tools.py\<close> and the bech32 package apply them only to text that has
  been checked to be ASCII (the guard in \<open>bech32_decode\<close>) or was built from ASCII (the
  result of \<open>bech32_encode\<close>). \<^verbatim>\<open>models.py\<close> applies \<^verbatim>\<open>upper\<close> to the status of
  a response and compares the result with \<^verbatim>\<open>'ERROR'\<close>; no code point outside ASCII
  has an upper case with one of the letters E, R, O in it, so the comparison has the
  same outcome here as in Python.
\<close>

definition upper_cp :: "nat \<Rightarrow> nat" where
  "upper_cp c = (if 97 \<le> c \<and> c \<le> 122 then c - 32 else c)"

definition lower_cp :: "nat \<Rightarrow> nat" where
  "lower_cp c = (if 65 \<le> c \<and> c \<le> 90 then c + 32 else c)"

definition upper :: "str \<Rightarrow> str" where
  "upper s = map upper_cp s"

definition lower :: "str \<Rightarrow> str" where
  "lower s = map lower_cp s"

text \<open>\<^verbatim>\<open>s.find(c)\<close> and \<^verbatim>\<open>s.rfind(c)\<close> for a single character: an index, or -1.\<close>

fun find :: "str \<Rightarrow> nat \<Rightarrow> int" where
  "find [] c = -1"
| "find (x # xs) c = (if x = c then 0 else (let r = find xs c in if r < 0 then -1 else r + 1))"

fun rfind :: "str \<Rightarrow> nat \<Rightarrow> int" where
  "rfind [] c = -1"
| "rfind (x # xs) c = (let r = rfind xs c in if 0 \<le> r then r + 1 else if x = c then 0 else -1)"

definition startswith :: "str \<Rightarrow> str \<Rightarrow> bool" where
  "startswith s p = (take (length p) s = p)"

text \<open>
  \<^verbatim>\<open>s.replace(sub, '')\<close>: every occurrence of \<open>sub\<close>, left to right and without
  overlap, is removed. With an empty \<open>sub\<close> Python returns \<open>s\<close>.
\<close>

function replace_empty :: "str \<Rightarrow> str \<Rightarrow> str" where
  "replace_empty [] sub = []"
| "replace_empty (x # xs) sub =
     (if sub \<noteq> [] \<and> startswith (x # xs) sub
      then replace_empty (drop (length sub) (x # xs)) sub
      else x # replace_empty xs sub)"
  by pat_completeness auto
termination
  by (relation "measure (\<lambda>(s, sub). length s)") auto

section \<open>The bech32 package\<close>

text \<open>
  \<^verbatim>\<open>tools.py\<close> imports \<^verbatim>\<open>bech32_decode\<close>, \<^verbatim>\<open>bech32_encode\<close> and
  \<^verbatim>\<open>convertbits\<close> from the \<^verbatim>\<open>bech32\<close> package, which holds the reference
  implementation of BIP 173 with one change: in \<^verbatim>\<open>bech32_decode\<close> the test
  \<^verbatim>\<open>len(bech) > 90\<close> is commented out, so the package decodes strings of any
  length (a Lightning invoice is longer than 90 characters). The definitions follow
  the package line by line.
\<close>

definition CHARSET :: str where
  "CHARSET = lit ''qpzry9x8gf2tvdw0s3jn54khce6mua7l''"

definition generator :: "int list" where
  "generator = [0x3b6a57b2, 0x26508e6d, 0x1ea119fa, 0x3d4233dd, 0x2a1462b3]"

text \<open>
  One round of \<^verbatim>\<open>bech32_polymod\<close>:
  \<^verbatim>\<open>top = chk >> 25; chk = (chk & 0x1ffffff) << 5 ^ value;
  for i in range(5): chk ^= generator[i] if ((top >> i) & 1) else 0\<close>
\<close>

definition polymod_step :: "int \<Rightarrow> int \<Rightarrow> int" where
  "polymod_step chk v =
     (let top = drop_bit 25 chk;
          chk1 = push_bit 5 (chk AND 0x1ffffff) XOR v
      in foldl (\<lambda>c i. c XOR (if drop_bit i top AND 1 \<noteq> 0 then generator ! i else 0)) chk1 [0..<5])"

definition bech32_polymod :: "int list \<Rightarrow> int" where
  "bech32_polymod values = foldl polymod_step 1 values"

definition bech32_hrp_expand :: "str \<Rightarrow> int list" where
  "bech32_hrp_expand hrp =
     map (\<lambda>x. drop_bit 5 (int x)) hrp @ [0] @ map (\<lambda>x. int x AND 31) hrp"

definition bech32_verify_checksum :: "str \<Rightarrow> int list \<Rightarrow> bool" where
  "bech32_verify_checksum hrp data = (bech32_polymod (bech32_hrp_expand hrp @ data) = 1)"

definition bech32_create_checksum :: "str \<Rightarrow> int list \<Rightarrow> int list" where
  "bech32_create_checksum hrp data =
     (let values = bech32_hrp_expand hrp @ data;
          polymod = bech32_polymod (values @ [0, 0, 0, 0, 0, 0]) XOR 1
      in map (\<lambda>i. drop_bit (5 * (5 - i)) polymod AND 31) [0..<6])"

text \<open>\<^verbatim>\<open>CHARSET[d]\<close>: a negative index counts from the end, one out of range raises.\<close>

definition charset_at :: "int \<Rightarrow> nat option" where
  "charset_at d =
     (if 0 \<le> d \<and> d < 32 then Some (CHARSET ! nat d)
      else if - 32 \<le> d \<and> d < 0 then Some (CHARSET ! nat (32 + d))
      else None)"

fun join_charset :: "int list \<Rightarrow> str option" where
  "join_charset [] = Some []"
| "join_charset (d # ds) =
     (case charset_at d of
        None \<Rightarrow> None
      | Some c \<Rightarrow> (case join_charset ds of None \<Rightarrow> None | Some cs \<Rightarrow> Some (c # cs)))"

definition bech32_encode :: "str \<Rightarrow> int list \<Rightarrow> exn + str" where
  "bech32_encode hrp data =
     (let combined = data @ bech32_create_checksum hrp data
      in case join_charset combined of
           None \<Rightarrow> Inl IndexError
         | Some cs \<Rightarrow> Inr (hrp @ lit ''1'' @ cs))"

text \<open>
  \<^verbatim>\<open>bech32_decode\<close> returns the pair \<^verbatim>\<open>(None, None)\<close> for every string it
  rejects, whatever the reason: a character outside 33..126, mixed case, no separator,
  an empty prefix, a data part shorter than the checksum, a character outside the
  charset, or a checksum that does not verify. The length is not tested, the line
  reads \<^verbatim>\<open>if pos < 1 or pos + 7 > len(bech): #or len(bech) > 90:\<close>.
\<close>

definition bech32_decode :: "str \<Rightarrow> str option \<times> int list option" where
  "bech32_decode bech0 =
     (if list_ex (\<lambda>x. x < 33 \<or> 126 < x) bech0 \<or> (lower bech0 \<noteq> bech0 \<and> upper bech0 \<noteq> bech0)
      then (None, None)
      else
        (let bech = lower bech0;
             pos = rfind bech 49
         in if pos < 1 \<or> int (length bech) < pos + 7 then (None, None)
            else if \<not> list_all (\<lambda>x. x \<in> set CHARSET) (drop (nat pos + 1) bech) then (None, None)
            else
              (let hrp = take (nat pos) bech;
                   data = map (find CHARSET) (drop (nat pos + 1) bech)
               in if \<not> bech32_verify_checksum hrp data then (None, None)
                  else (Some hrp, Some (take (length data - 6) data)))))"

text \<open>
  The inner loop of \<^verbatim>\<open>convertbits\<close>:
  \<^verbatim>\<open>while bits >= tobits: bits -= tobits; ret.append((acc >> bits) & maxv)\<close>.
  Both calls in \<^verbatim>\<open>tools.py\<close> pass a positive \<open>tobits\<close> (5 and 8); with
  \<open>tobits = 0\<close> the Python loop would not end, and the function below does not enter it.
\<close>

function emit :: "nat \<Rightarrow> int \<Rightarrow> int \<Rightarrow> nat \<Rightarrow> int list \<Rightarrow> nat \<times> int list" where
  "emit tobits maxv acc bits ret =
     (if 0 < tobits \<and> tobits \<le> bits
      then emit tobits maxv acc (bits - tobits) (ret @ [drop_bit (bits - tobits) acc AND maxv])
      else (bits, ret))"
  by pat_completeness auto
termination
  by (relation "measure (\<lambda>(tobits, maxv, acc, bits, ret). bits)") auto

declare emit.simps [simp del]

text \<open>
  The outer loop, over the state \<open>(acc, bits, ret)\<close>:
  \<^verbatim>\<open>if value < 0 or (value >> frombits): return None\<close>,
  \<^verbatim>\<open>acc = ((acc << frombits) | value) & max_acc; bits += frombits\<close>, then the inner loop.
\<close>

fun convert_loop ::
  "nat \<Rightarrow> nat \<Rightarrow> int \<Rightarrow> int \<Rightarrow> int \<times> nat \<times> int list \<Rightarrow> int list \<Rightarrow> (int \<times> nat \<times> int list) option"
where
  "convert_loop frombits tobits maxv max_acc st [] = Some st"
| "convert_loop frombits tobits maxv max_acc (acc, bits, ret) (v # data) =
     (if v < 0 \<or> drop_bit frombits v \<noteq> 0 then None
      else
        (let acc1 = (push_bit frombits acc OR v) AND max_acc;
             (bits2, ret2) = emit tobits maxv acc1 (bits + frombits) ret
         in convert_loop frombits tobits maxv max_acc (acc1, bits2, ret2) data))"

definition convertbits :: "int list \<Rightarrow> nat \<Rightarrow> nat \<Rightarrow> bool \<Rightarrow> int list option" where
  "convertbits data frombits tobits pad =
     (let maxv = push_bit tobits 1 - 1;
          max_acc = push_bit (frombits + tobits - 1) 1 - 1
      in case convert_loop frombits tobits maxv max_acc (0, 0, []) data of
           None \<Rightarrow> None
         | Some (acc, bits, ret) \<Rightarrow>
             (if pad then
                (if bits \<noteq> 0 then Some (ret @ [push_bit (tobits - bits) acc AND maxv])
                 else Some ret)
              else if frombits \<le> bits \<or> push_bit (tobits - bits) acc AND maxv \<noteq> 0 then None
              else Some ret))"

section \<open>UTF-8\<close>

text \<open>
  \<^verbatim>\<open>url.encode('utf-8')\<close>: one to four bytes per code point; a surrogate
  (\<open>0xD800\<close> to \<open>0xDFFF\<close>) raises \<^verbatim>\<open>UnicodeEncodeError\<close>, here \<open>None\<close>. A Python
  string holds no code point above \<open>0x10FFFF\<close>.
\<close>

definition utf8_encode_cp :: "nat \<Rightarrow> int list option" where
  "utf8_encode_cp c =
     (if c < 0x80 then Some [int c]
      else if c < 0x800 then Some [0xC0 + int (c div 64), 0x80 + int (c mod 64)]
      else if 0xD800 \<le> c \<and> c \<le> 0xDFFF then None
      else if c < 0x10000 then
        Some [0xE0 + int (c div 4096), 0x80 + int (c div 64 mod 64), 0x80 + int (c mod 64)]
      else if c \<le> 0x10FFFF then
        Some [0xF0 + int (c div 262144), 0x80 + int (c div 4096 mod 64),
              0x80 + int (c div 64 mod 64), 0x80 + int (c mod 64)]
      else None)"

fun utf8_encode :: "str \<Rightarrow> int list option" where
  "utf8_encode [] = Some []"
| "utf8_encode (c # cs) =
     (case utf8_encode_cp c of
        None \<Rightarrow> None
      | Some bs \<Rightarrow> (case utf8_encode cs of None \<Rightarrow> None | Some r \<Rightarrow> Some (bs @ r)))"

text \<open>
  \<^verbatim>\<open>bytes.decode('utf-8')\<close>, strict: continuation bytes are \<open>0x80..0xBF\<close>; overlong
  forms, surrogates and values above \<open>0x10FFFF\<close> are invalid
  (\<^verbatim>\<open>UnicodeDecodeError\<close>, here \<open>None\<close>).
\<close>

definition cont :: "int \<Rightarrow> bool" where
  "cont b = (0x80 \<le> b \<and> b \<le> 0xBF)"

fun utf8_decode :: "int list \<Rightarrow> str option" where
  "utf8_decode [] = Some []"
| "utf8_decode (b0 # bs) =
     (if 0 \<le> b0 \<and> b0 < 0x80 then
        (case utf8_decode bs of None \<Rightarrow> None | Some r \<Rightarrow> Some (nat b0 # r))
      else if 0xC2 \<le> b0 \<and> b0 \<le> 0xDF then
        (case bs of
           b1 # r1 \<Rightarrow>
             (if cont b1 then
                (case utf8_decode r1 of
                   None \<Rightarrow> None
                 | Some r \<Rightarrow> Some (nat ((b0 - 0xC0) * 64 + (b1 - 0x80)) # r))
              else None)
         | _ \<Rightarrow> None)
      else if 0xE0 \<le> b0 \<and> b0 \<le> 0xEF then
        (case bs of
           b1 # b2 # r2 \<Rightarrow>
             (if cont b1 \<and> cont b2 \<and> (if b0 = 0xE0 then 0xA0 \<le> b1 else True)
                 \<and> (if b0 = 0xED then b1 \<le> 0x9F else True) then
                (case utf8_decode r2 of
                   None \<Rightarrow> None
                 | Some r \<Rightarrow>
                     Some (nat ((b0 - 0xE0) * 4096 + (b1 - 0x80) * 64 + (b2 - 0x80)) # r))
              else None)
         | _ \<Rightarrow> None)
      else if 0xF0 \<le> b0 \<and> b0 \<le> 0xF4 then
        (case bs of
           b1 # b2 # b3 # r3 \<Rightarrow>
             (if cont b1 \<and> cont b2 \<and> cont b3 \<and> (if b0 = 0xF0 then 0x90 \<le> b1 else True)
                 \<and> (if b0 = 0xF4 then b1 \<le> 0x8F else True) then
                (case utf8_decode r3 of
                   None \<Rightarrow> None
                 | Some r \<Rightarrow>
                     Some (nat ((b0 - 0xF0) * 262144 + (b1 - 0x80) * 4096
                                + (b2 - 0x80) * 64 + (b3 - 0x80)) # r))
              else None)
         | _ \<Rightarrow> None)
      else None)"

section \<open>tools.py\<close>

text \<open>
  \<^verbatim>\<open>_bech32_decode(bech32, *, allowed_hrp=None)\<close>. The f-string renders a
  \<^verbatim>\<open>None\<close> prefix as the text \<^verbatim>\<open>None\<close>. A set that is \<^verbatim>\<open>None\<close> or empty
  is falsy, so the membership test is skipped for it.
\<close>

definition format_hrp :: "str option \<Rightarrow> str" where
  "format_hrp hrp = (case hrp of None \<Rightarrow> lit ''None'' | Some h \<Rightarrow> h)"

definition invalid_hrp :: "str option \<Rightarrow> exn" where
  "invalid_hrp hrp =
     ValueError (lit ''Invalid Human Readable Prefix (HRP): '' @ format_hrp hrp @ lit ''.'')"

definition bech32_decode_tools ::
  "str \<Rightarrow> str list option \<Rightarrow> exn + (str \<times> int list)" where
  "bech32_decode_tools bech32 allowed_hrp =
     (case bech32_decode bech32 of
        (Some hrp, Some data) \<Rightarrow>
          (if (case allowed_hrp of None \<Rightarrow> False | Some a \<Rightarrow> a \<noteq> [] \<and> hrp \<notin> set a)
           then Inl (invalid_hrp (Some hrp))
           else Inr (hrp, data))
      | (hrp, _) \<Rightarrow> Inl (invalid_hrp hrp))"

text \<open>
  \<^verbatim>\<open>bytes(xs)\<close>: \<^verbatim>\<open>TypeError\<close> for \<^verbatim>\<open>None\<close>, \<^verbatim>\<open>ValueError\<close> for an element
  outside \<open>range(256)\<close>.
\<close>

definition bytes :: "int list option \<Rightarrow> exn + int list" where
  "bytes xs =
     (case xs of
        None \<Rightarrow> Inl TypeError
      | Some bs \<Rightarrow>
          (if list_all (\<lambda>b. 0 \<le> b \<and> b < 256) bs then Inr bs
           else Inl (ValueError (lit ''bytes must be in range(0, 256)''))))"

text \<open>
  \<^verbatim>\<open>_lnurl_decode\<close>. Its first line,
  \<^verbatim>\<open>lnurl.replace('lightning:', '') if lnurl.startswith('lightning:') else lnurl\<close>,
  is \<open>strip_scheme\<close>.
\<close>

definition strip_scheme :: "str \<Rightarrow> str" where
  "strip_scheme lnurl =
     (if startswith lnurl (lit ''lightning:'') then replace_empty lnurl (lit ''lightning:'')
      else lnurl)"

definition lnurl_decode :: "str \<Rightarrow> exn + str" where
  "lnurl_decode lnurl0 =
     (let lnurl = strip_scheme lnurl0
      in case bech32_decode_tools lnurl (Some [lit ''lnurl'']) of
           Inl e \<Rightarrow> Inl e
         | Inr (hrp, data) \<Rightarrow>
             (case bytes (convertbits data 5 8 False) of
                Inl e \<Rightarrow> Inl e
              | Inr bs \<Rightarrow>
                  (case utf8_decode bs of
                     None \<Rightarrow> Inl (ValueError (lit ''Invalid LNURL.''))
                   | Some url \<Rightarrow> Inr url)))"

text \<open>\<^verbatim>\<open>_url_encode\<close>.\<close>

definition url_encode :: "str \<Rightarrow> exn + str" where
  "url_encode url =
     (case utf8_encode url of
        None \<Rightarrow> Inl (ValueError (lit ''Invalid URL.''))
      | Some bs \<Rightarrow>
          (case convertbits bs 8 5 True of
             None \<Rightarrow> Inl TypeError
           | Some data \<Rightarrow>
               (case bech32_encode (lit ''lnurl'') data of
                  Inl e \<Rightarrow> Inl e
                | Inr lnurl \<Rightarrow> Inr (upper lnurl))))"

section \<open>Values of a decoded JSON document\<close>

text \<open>
  \<^verbatim>\<open>from_dict\<close> receives the mapping that a JSON document decodes to: its keys are
  strings, its values strings, integers, booleans, \<^verbatim>\<open>None\<close>, lists and mappings.
  Numbers with a fraction are left out of the model.
\<close>

datatype pyval =
    VStr str
  | VInt int
  | VBool bool
  | VNone
  | VList "pyval list"
  | VDict "(str \<times> pyval) list"

type_synonym pydict = "str \<rightharpoonup> pyval"

text \<open>\<^verbatim>\<open>str(n)\<close> for an integer: decimal digits, with a minus sign.\<close>

fun str_of_nat :: "nat \<Rightarrow> str" where
  "str_of_nat n = (if n < 10 then [48 + n] else str_of_nat (n div 10) @ [48 + n mod 10])"

declare str_of_nat.simps [simp del]

definition str_of_int :: "int \<Rightarrow> str" where
  "str_of_int i = (if i < 0 then 45 # str_of_nat (nat (- i)) else str_of_nat (nat i))"

text \<open>
  \<^verbatim>\<open>a < b\<close> on the values a validated amount can be: integers, with
  \<^verbatim>\<open>True\<close> and \<^verbatim>\<open>False\<close> counting as 1 and 0. \<open>None\<close> stands for the
  \<^verbatim>\<open>TypeError\<close> of operands that do not compare as numbers.
\<close>

definition as_int :: "pyval \<Rightarrow> int option" where
  "as_int v = (case v of VInt n \<Rightarrow> Some n | VBool b \<Rightarrow> Some (if b then 1 else 0) | _ \<Rightarrow> None)"

definition py_lt :: "pyval \<Rightarrow> pyval \<Rightarrow> bool option" where
  "py_lt a b =
     (case as_int a of
        None \<Rightarrow> None
      | Some x \<Rightarrow> (case as_int b of None \<Rightarrow> None | Some y \<Rightarrow> Some (x < y)))"

text \<open>\<^verbatim>\<open>isinstance(v, str)\<close>.\<close>

definition is_str :: "pyval \<Rightarrow> bool" where
  "is_str v = (case v of VStr s \<Rightarrow> True | _ \<Rightarrow> False)"

section \<open>The pydantic model classes of models.py\<close>

text \<open>The classes that \<^verbatim>\<open>models.py\<close> derives from \<^verbatim>\<open>BaseModel\<close>.\<close>

datatype model =
    LnurlPayRoute
  | LnurlPaySuccessAction
  | LnurlErrorResponse
  | LnurlSuccessResponse
  | LnurlAuthResponse
  | LnurlChannelResponse
  | LnurlHostedChannelResponse
  | LnurlPayResponse
  | LnurlPayActionResponse
  | LnurlWithdrawResponse

text \<open>The type annotations that the fields of these classes carry.\<close>

datatype annotation =
    Literal str
  | StrType
  | Optional annotation
  | ListOf annotation
  | Submodel model
  | HttpsUrl
  | LightningInvoice
  | LightningNodeUri
  | LnurlPayMetadata
  | MilliSatoshi

text \<open>
  The scalar types of \<^verbatim>\<open>lnurl.types\<close> are not among the sources: their validators are
  a parameter of the model, each returning the validated value or the message of its
  failure. \<open>MilliSatoshi\<close> is an integer type, so its validator returns an integer.
  \<open>validate_submodel\<close> is pydantic's validation of a value against a nested model class
  (\<^verbatim>\<open>LnurlPaySuccessAction\<close>, \<^verbatim>\<open>LnurlPayRoute\<close>).
\<close>

record lnurl_types =
  validate_HttpsUrl :: "pyval \<Rightarrow> str + pyval"
  validate_LightningInvoice :: "pyval \<Rightarrow> str + pyval"
  validate_LightningNodeUri :: "pyval \<Rightarrow> str + pyval"
  validate_LnurlPayMetadata :: "pyval \<Rightarrow> str + pyval"
  validate_MilliSatoshi :: "pyval \<Rightarrow> str + int"
  validate_submodel :: "model \<Rightarrow> pyval \<Rightarrow> str + pyval"

text \<open>
  pydantic's own validators. \<^verbatim>\<open>str\<close> accepts a string and renders a number as text;
  \<^verbatim>\<open>Literal[c]\<close> accepts the value \<open>c\<close> only; \<^verbatim>\<open>Optional[t]\<close> accepts
  \<^verbatim>\<open>None\<close> and what \<open>t\<close> accepts; \<^verbatim>\<open>List[t]\<close> accepts a list whose items \<open>t\<close>
  accepts, and reports the first item that fails.
\<close>

definition str_validator :: "pyval \<Rightarrow> str + pyval" where
  "str_validator v =
     (case v of
        VStr s \<Rightarrow> Inr (VStr s)
      | VInt n \<Rightarrow> Inr (VStr (str_of_int n))
      | VBool b \<Rightarrow> Inr (VStr (if b then lit ''True'' else lit ''False''))
      | _ \<Rightarrow> Inl (lit ''str type expected''))"

fun validate_items :: "(pyval \<Rightarrow> str + pyval) \<Rightarrow> pyval list \<Rightarrow> str + pyval list" where
  "validate_items f [] = Inr []"
| "validate_items f (x # xs) =
     (case f x of
        Inl msg \<Rightarrow> Inl msg
      | Inr y \<Rightarrow> (case validate_items f xs of Inl msg \<Rightarrow> Inl msg | Inr ys \<Rightarrow> Inr (y # ys)))"

fun type_validate :: "lnurl_types \<Rightarrow> annotation \<Rightarrow> pyval \<Rightarrow> str + pyval" where
  "type_validate T (Literal c) v = (if v = VStr c then Inr v else Inl (lit ''unexpected value''))"
| "type_validate T StrType v = str_validator v"
| "type_validate T (Optional t) v = (if v = VNone then Inr VNone else type_validate T t v)"
| "type_validate T (ListOf t) v =
     (case v of
        VList xs \<Rightarrow>
          (case validate_items (type_validate T t) xs of
             Inl msg \<Rightarrow> Inl msg
           | Inr ys \<Rightarrow> Inr (VList ys))
      | _ \<Rightarrow> Inl (lit ''value is not a valid list''))"
| "type_validate T (Submodel m) v = validate_submodel T m v"
| "type_validate T HttpsUrl v = validate_HttpsUrl T v"
| "type_validate T LightningInvoice v = validate_LightningInvoice T v"
| "type_validate T LightningNodeUri v = validate_LightningNodeUri T v"
| "type_validate T LnurlPayMetadata v = validate_LnurlPayMetadata T v"
| "type_validate T MilliSatoshi v =
     (case validate_MilliSatoshi T v of Inl msg \<Rightarrow> Inl msg | Inr n \<Rightarrow> Inr (VInt n))"

text \<open>
  A declared field: its attribute name, its alias (the name itself when none is given),
  whether a value is required, the default otherwise, its annotation, and the
  \<^verbatim>\<open>@validator\<close> functions of the class for it. A validator gets the value and the
  fields validated before it, and returns the value or the message of its
  \<^verbatim>\<open>ValueError\<close>.
\<close>

record ModelField =
  field_name :: str
  field_alias :: str
  required :: bool
  default :: pyval
  annotation :: annotation
  class_validators :: "(pyval \<Rightarrow> pydict \<Rightarrow> str + pyval) list"

text \<open>
  The two validators of \<^verbatim>\<open>models.py\<close>, both named \<^verbatim>\<open>max_less_than_min\<close>:
  \<^verbatim>\<open>if 'min_sendable' in values and value < values['min_sendable']: raise ValueError(...)\<close>.
\<close>

definition LnurlPayResponse_max_less_than_min :: "pyval \<Rightarrow> pydict \<Rightarrow> str + pyval" where
  "LnurlPayResponse_max_less_than_min v values =
     (case values (lit ''min_sendable'') of
        None \<Rightarrow> Inr v
      | Some m \<Rightarrow>
          (case py_lt v m of
             None \<Rightarrow> Inl (lit ''TypeError'')
           | Some True \<Rightarrow> Inl (lit ''`max_sendable` cannot be less than `min_sendable`.'')
           | Some False \<Rightarrow> Inr v))"

definition LnurlWithdrawResponse_max_less_than_min :: "pyval \<Rightarrow> pydict \<Rightarrow> str + pyval" where
  "LnurlWithdrawResponse_max_less_than_min v values =
     (case values (lit ''min_withdrawable'') of
        None \<Rightarrow> Inr v
      | Some m \<Rightarrow>
          (case py_lt v m of
             None \<Rightarrow> Inl (lit ''TypeError'')
           | Some True \<Rightarrow>
               Inl (lit ''`max_withdrawable` cannot be less than `min_withdrawable`.'')
           | Some False \<Rightarrow> Inr v))"

text \<open>Shorthands for the ways the classes declare a field.\<close>

definition required_field :: "str \<Rightarrow> str \<Rightarrow> annotation \<Rightarrow> ModelField" where
  "required_field n a t =
     \<lparr>field_name = n, field_alias = a, required = True, default = VNone, annotation = t,
      class_validators = []\<rparr>"

definition default_field :: "str \<Rightarrow> str \<Rightarrow> annotation \<Rightarrow> pyval \<Rightarrow> ModelField" where
  "default_field n a t d =
     \<lparr>field_name = n, field_alias = a, required = False, default = d, annotation = t,
      class_validators = []\<rparr>"

text \<open>The fields of each class, in the order of their declaration.\<close>

fun model_fields :: "model \<Rightarrow> ModelField list" where
  "model_fields LnurlPayRoute = []"
| "model_fields LnurlPaySuccessAction = []"
| "model_fields LnurlErrorResponse =
     [default_field (lit ''status'') (lit ''status'') (Literal (lit ''ERROR'')) (VStr (lit ''ERROR'')),
      required_field (lit ''reason'') (lit ''reason'') StrType]"
| "model_fields LnurlSuccessResponse =
     [default_field (lit ''status'') (lit ''status'') (Literal (lit ''OK'')) (VStr (lit ''OK''))]"
| "model_fields LnurlAuthResponse =
     [default_field (lit ''tag'') (lit ''tag'') (Literal (lit ''login'')) (VStr (lit ''login'')),
      required_field (lit ''callback'') (lit ''callback'') HttpsUrl,
      required_field (lit ''k1'') (lit ''k1'') StrType]"
| "model_fields LnurlChannelResponse =
     [default_field (lit ''tag'') (lit ''tag'') (Literal (lit ''channelRequest''))
        (VStr (lit ''channelRequest'')),
      required_field (lit ''uri'') (lit ''uri'') LightningNodeUri,
      required_field (lit ''callback'') (lit ''callback'') HttpsUrl,
      required_field (lit ''k1'') (lit ''k1'') StrType]"
| "model_fields LnurlHostedChannelResponse =
     [default_field (lit ''tag'') (lit ''tag'') (Literal (lit ''hostedChannelRequest''))
        (VStr (lit ''hostedChannelRequest'')),
      required_field (lit ''uri'') (lit ''uri'') LightningNodeUri,
      required_field (lit ''k1'') (lit ''k1'') StrType,
      default_field (lit ''alias'') (lit ''alias'') (Optional StrType) VNone]"
| "model_fields LnurlPayResponse =
     [default_field (lit ''tag'') (lit ''tag'') (Literal (lit ''payRequest''))
        (VStr (lit ''payRequest'')),
      required_field (lit ''callback'') (lit ''callback'') HttpsUrl,
      required_field (lit ''min_sendable'') (lit ''minSendable'') MilliSatoshi,
      (required_field (lit ''max_sendable'') (lit ''maxSendable'') MilliSatoshi)
        \<lparr>class_validators := [LnurlPayResponse_max_less_than_min]\<rparr>,
      required_field (lit ''metadata'') (lit ''metadata'') LnurlPayMetadata]"
| "model_fields LnurlPayActionResponse =
     [required_field (lit ''pr'') (lit ''pr'') LightningInvoice,
      default_field (lit ''success_action'') (lit ''successAction'')
        (Optional (Submodel LnurlPaySuccessAction)) VNone,
      default_field (lit ''routes'') (lit ''routes'') (ListOf (Submodel LnurlPayRoute)) (VList [])]"
| "model_fields LnurlWithdrawResponse =
     [default_field (lit ''tag'') (lit ''tag'') (Literal (lit ''withdrawRequest''))
        (VStr (lit ''withdrawRequest'')),
      required_field (lit ''callback'') (lit ''callback'') HttpsUrl,
      required_field (lit ''k1'') (lit ''k1'') StrType,
      required_field (lit ''min_withdrawable'') (lit ''minWithdrawable'') MilliSatoshi,
      (required_field (lit ''max_withdrawable'') (lit ''maxWithdrawable'') MilliSatoshi)
        \<lparr>class_validators := [LnurlWithdrawResponse_max_less_than_min]\<rparr>,
      default_field (lit ''default_description'') (lit ''defaultDescription'') StrType (VStr [])]"

text \<open>
  The \<^verbatim>\<open>Config\<close> of \<^verbatim>\<open>LnurlResponseModel\<close>, which every response class inherits.
  The class sets \<^verbatim>\<open>allow_population_by_field_name = True\<close> and nothing else, so the
  other options keep pydantic's defaults: extra keys are ignored, instances can be
  assigned to, and an assignment is not validated.
\<close>

datatype Extra = Extra_allow | Extra_ignore | Extra_forbid

record Config =
  allow_population_by_field_name :: bool
  extra :: Extra
  allow_mutation :: bool
  validate_assignment :: bool

definition LnurlResponseModel_Config :: Config where
  "LnurlResponseModel_Config =
     \<lparr>allow_population_by_field_name = True, extra = Extra_ignore,
      allow_mutation = True, validate_assignment = False\<rparr>"

text \<open>
  An instance: its class and its \<^verbatim>\<open>__dict__\<close>, which maps the name of every declared
  field to its value.
\<close>

record model_instance =
  cls :: model
  attrs :: pydict

text \<open>
  Validation of one value for a field: the annotation's validator, then the validators
  of the class in turn.
\<close>

fun run_validators ::
  "(pyval \<Rightarrow> pydict \<Rightarrow> str + pyval) list \<Rightarrow> pyval \<Rightarrow> pydict \<Rightarrow> str + pyval" where
  "run_validators [] v values = Inr v"
| "run_validators (f # fs) v values =
     (case f v values of Inl msg \<Rightarrow> Inl msg | Inr v1 \<Rightarrow> run_validators fs v1 values)"

definition validate_field :: "lnurl_types \<Rightarrow> ModelField \<Rightarrow> pyval \<Rightarrow> pydict \<Rightarrow> str + pyval" where
  "validate_field T f v values =
     (case type_validate T (annotation f) v of
        Inl msg \<Rightarrow> Inl msg
      | Inr v1 \<Rightarrow> run_validators (class_validators f) v1 values)"

text \<open>
  pydantic's \<^verbatim>\<open>validate_model\<close>, field by field over the state (values, errors):
  the value is looked up under the alias and, when the configuration allows it, under
  the field's name; a missing value is an error for a required field and the default
  (unvalidated) otherwise; a value that fails adds an error and sets nothing. Keys of
  the input that name no field are ignored under \<open>Extra_ignore\<close>, kept under
  \<open>Extra_allow\<close> and an error under \<open>Extra_forbid\<close>; the response classes ignore them.
\<close>

fun validate_model ::
  "lnurl_types \<Rightarrow> Config \<Rightarrow> pydict \<Rightarrow> ModelField list \<Rightarrow> pydict \<Rightarrow> (str \<times> str) list
     \<Rightarrow> pydict \<times> (str \<times> str) list" where
  "validate_model T cfg input [] values errors = (values, errors)"
| "validate_model T cfg input (f # fs) values errors =
     (case (case input (field_alias f) of
              Some v \<Rightarrow> Some v
            | None \<Rightarrow> if allow_population_by_field_name cfg then input (field_name f) else None) of
        None \<Rightarrow>
          (if required f
           then validate_model T cfg input fs values (errors @ [(field_alias f, lit ''field required'')])
           else validate_model T cfg input fs (values(field_name f \<mapsto> default f)) errors)
      | Some v \<Rightarrow>
          (case validate_field T f v values of
             Inl msg \<Rightarrow> validate_model T cfg input fs values (errors @ [(field_alias f, msg)])
           | Inr v1 \<Rightarrow> validate_model T cfg input fs (values(field_name f \<mapsto> v1)) errors))"

text \<open>
  The body of pydantic's \<^verbatim>\<open>BaseModel.__init__(__pydantic_self__, **data)\<close> for a
  response class: the instance when no field failed, a \<^verbatim>\<open>ValidationError\<close> with
  every failure otherwise.
\<close>

definition BaseModel_init :: "lnurl_types \<Rightarrow> model \<Rightarrow> pydict \<Rightarrow> exn + model_instance" where
  "BaseModel_init T m data =
     (case validate_model T LnurlResponseModel_Config data (model_fields m) Map.empty [] of
        (values, errors) \<Rightarrow>
          (if errors = [] then Inr \<lparr>cls = m, attrs = values\<rparr>
           else Inl (ValidationError errors)))"

text \<open>
  The call \<^verbatim>\<open>Model(**d)\<close>. Every key of \<open>d\<close> becomes a keyword argument. The first
  parameter of \<^verbatim>\<open>__init__\<close> is bound to the new instance, so a key with the name
  of that parameter makes the call itself raise \<^verbatim>\<open>TypeError\<close> (multiple values for
  one argument), before any field is looked at; every other key lands in
  \<^verbatim>\<open>**data\<close>.
\<close>

definition construct :: "lnurl_types \<Rightarrow> model \<Rightarrow> pydict \<Rightarrow> exn + model_instance" where
  "construct T m d =
     (if lit ''__pydantic_self__'' \<in> dom d then Inl TypeError else BaseModel_init T m d)"

text \<open>
  \<^verbatim>\<open>BaseModel.__setattr__\<close>, which runs on \<^verbatim>\<open>self.name = value\<close>: an unknown
  name is refused, an immutable class refuses every assignment, and the value is
  validated only under \<open>validate_assignment\<close>.
\<close>

definition setattr :: "lnurl_types \<Rightarrow> Config \<Rightarrow> model_instance \<Rightarrow> str \<Rightarrow> pyval \<Rightarrow> exn + model_instance" where
  "setattr T cfg self n v =
     (if extra cfg \<noteq> Extra_allow \<and> n \<notin> set (map field_name (model_fields (cls self)))
      then Inl (ValueError (lit ''object has no field''))
      else if \<not> allow_mutation cfg then Inl TypeError
      else if validate_assignment cfg then
        (case List.find (\<lambda>f. field_name f = n) (model_fields (cls self)) of
           None \<Rightarrow> Inr (self\<lparr>attrs := (attrs self)(n \<mapsto> v)\<rparr>)
         | Some f \<Rightarrow>
             (case validate_field T f v ((attrs self)(n := None)) of
                Inl msg \<Rightarrow> Inl (ValidationError [(n, msg)])
              | Inr v1 \<Rightarrow> Inr (self\<lparr>attrs := (attrs self)(n \<mapsto> v1)\<rparr>)))
      else Inr (self\<lparr>attrs := (attrs self)(n \<mapsto> v)\<rparr>))"

section \<open>Satoshi amounts\<close>

text \<open>
  \<^verbatim>\<open>self.min_sendable / 1000\<close> is Python's true division of integers: the result is
  the binary64 number nearest to the exact quotient, ties to even, and
  \<^verbatim>\<open>OverflowError\<close> when that is beyond the largest float. A float is kept as a
  pair \<open>(m, e)\<close> that stands for \<open>m * 2 ^ e\<close>, with \<open>\<bar>m\<bar> \<le> 2 ^ 53\<close>.
  \<open>floor_log2\<close> gives the \<open>k\<close> with \<open>2 ^ k \<le> n / d < 2 ^ (k + 1)\<close> for positive
  \<open>n\<close> and \<open>d\<close>. The divisor is 1000 at every call, so the quotient of a non-zero
  integer is never in the subnormal range.
\<close>

type_synonym float = "int \<times> int"

definition floor_log2 :: "int \<Rightarrow> int \<Rightarrow> int" where
  "floor_log2 n d =
     (let k = bitlen n - bitlen d
      in if (if 0 \<le> k then d * 2 ^ nat k \<le> n else d \<le> n * 2 ^ nat (- k)) then k else k - 1)"

definition truediv :: "int \<Rightarrow> int \<Rightarrow> exn + float" where
  "truediv a d =
     (if a = 0 then Inr (0, 0)
      else
        (let n = \<bar>a\<bar>;
             e = floor_log2 n d - 52;
             num = (if 0 \<le> e then n else n * 2 ^ nat (- e));
             den = (if 0 \<le> e then d * 2 ^ nat e else d);
             q = num div den;
             r = num mod den;
             m = (if den < 2 * r \<or> (2 * r = den \<and> odd q) then q + 1 else q)
         in if 0 \<le> e \<and> 2 ^ 1024 \<le> m * 2 ^ nat e then Inl OverflowError
            else Inr (sgn a * m, e)))"

text \<open>\<^verbatim>\<open>math.ceil\<close> and \<^verbatim>\<open>math.floor\<close> of a float: exact integers.\<close>

definition math_ceil :: "float \<Rightarrow> int" where
  "math_ceil x = (case x of (m, e) \<Rightarrow> if 0 \<le> e then m * 2 ^ nat e else - ((- m) div 2 ^ nat (- e)))"

definition math_floor :: "float \<Rightarrow> int" where
  "math_floor x = (case x of (m, e) \<Rightarrow> if 0 \<le> e then m * 2 ^ nat e else m div 2 ^ nat (- e))"

text \<open>
  The attribute read \<^verbatim>\<open>self.name\<close> followed by \<^verbatim>\<open>/ 1000\<close>: a constructed instance
  holds the integer that \<open>MilliSatoshi\<close> validated.
\<close>

definition attr_div_1000 :: "model_instance \<Rightarrow> str \<Rightarrow> exn + float" where
  "attr_div_1000 self n =
     (case attrs self n of
        None \<Rightarrow> Inl AttributeError
      | Some v \<Rightarrow> (case as_int v of None \<Rightarrow> Inl TypeError | Some a \<Rightarrow> truediv a 1000))"

text \<open>
  The properties \<^verbatim>\<open>min_sats\<close> and \<^verbatim>\<open>max_sats\<close> of \<^verbatim>\<open>LnurlPayResponse\<close> and of
  \<^verbatim>\<open>LnurlWithdrawResponse\<close>: \<^verbatim>\<open>int(math.ceil(self.min_sendable / 1000))\<close> and
  \<^verbatim>\<open>int(math.floor(self.max_sendable / 1000))\<close>.
\<close>

definition LnurlPayResponse_min_sats :: "model_instance \<Rightarrow> exn + int" where
  "LnurlPayResponse_min_sats self =
     (case attr_div_1000 self (lit ''min_sendable'') of Inl e \<Rightarrow> Inl e | Inr x \<Rightarrow> Inr (math_ceil x))"

definition LnurlPayResponse_max_sats :: "model_instance \<Rightarrow> exn + int" where
  "LnurlPayResponse_max_sats self =
     (case attr_div_1000 self (lit ''max_sendable'') of Inl e \<Rightarrow> Inl e | Inr x \<Rightarrow> Inr (math_floor x))"

definition LnurlWithdrawResponse_min_sats :: "model_instance \<Rightarrow> exn + int" where
  "LnurlWithdrawResponse_min_sats self =
     (case attr_div_1000 self (lit ''min_withdrawable'') of
        Inl e \<Rightarrow> Inl e
      | Inr x \<Rightarrow> Inr (math_ceil x))"

definition LnurlWithdrawResponse_max_sats :: "model_instance \<Rightarrow> exn + int" where
  "LnurlWithdrawResponse_max_sats self =
     (case attr_div_1000 self (lit ''max_withdrawable'') of
        Inl e \<Rightarrow> Inl e
      | Inr x \<Rightarrow> Inr (math_floor x))"

section \<open>LnurlResponse.from_dict\<close>

text \<open>
  The table of the \<^verbatim>\<open>tag\<close> branch and its subscript \<^verbatim>\<open>{...}[d['tag']]\<close>: a list or
  a mapping is unhashable (\<^verbatim>\<open>TypeError\<close>), any other value that is not a key of the
  table raises \<^verbatim>\<open>KeyError\<close>.
\<close>

definition tag_table :: "(str \<times> model) list" where
  "tag_table =
     [(lit ''channelRequest'', LnurlChannelResponse),
      (lit ''hostedChannelRequest'', LnurlHostedChannelResponse),
      (lit ''payRequest'', LnurlPayResponse),
      (lit ''withdrawRequest'', LnurlWithdrawResponse)]"

definition tag_lookup :: "pyval \<Rightarrow> exn + model" where
  "tag_lookup v =
     (case v of
        VStr t \<Rightarrow> (case map_of tag_table t of None \<Rightarrow> Inl KeyError | Some m \<Rightarrow> Inr m)
      | VList xs \<Rightarrow> Inl TypeError
      | VDict kvs \<Rightarrow> Inl TypeError
      | _ \<Rightarrow> Inl KeyError)"

text \<open>
  The body of the \<^verbatim>\<open>try\<close>. The mapping \<open>d\<close> is the caller's object, so the result is
  paired with the mapping as the call leaves it:
  \<^verbatim>\<open>d['status'] = d['status'].upper()\<close> and \<^verbatim>\<open>d.pop('status', None)\<close> write to it.
  Only a string has \<^verbatim>\<open>upper\<close>; any other status raises \<^verbatim>\<open>AttributeError\<close>.
  \<open>from_dict_tagged\<close> is the chain from \<^verbatim>\<open>elif 'tag' in d\<close> on.
\<close>

definition from_dict_tagged :: "lnurl_types \<Rightarrow> pydict \<Rightarrow> (exn + model_instance) \<times> pydict" where
  "from_dict_tagged T d =
     (case d (lit ''tag'') of
        Some t \<Rightarrow>
          (let d1 = d(lit ''status'' := None)
           in case tag_lookup t of
                Inl e \<Rightarrow> (Inl e, d1)
              | Inr m \<Rightarrow> (construct T m d1, d1))
      | None \<Rightarrow>
          (if lit ''success_action'' \<in> dom d then (construct T LnurlPayActionResponse d, d)
           else (construct T LnurlSuccessResponse d, d)))"

definition from_dict_try :: "lnurl_types \<Rightarrow> pydict \<Rightarrow> (exn + model_instance) \<times> pydict" where
  "from_dict_try T d =
     (case d (lit ''status'') of
        None \<Rightarrow> from_dict_tagged T d
      | Some v \<Rightarrow>
          (case v of
             VStr s \<Rightarrow>
               (if upper s = lit ''ERROR''
                then (let d1 = d(lit ''status'' \<mapsto> VStr (upper s))
                      in (construct T LnurlErrorResponse d1, d1))
                else from_dict_tagged T d)
           | _ \<Rightarrow> (Inl AttributeError, d)))"

text \<open>\<^verbatim>\<open>except Exception: raise LnurlResponseException\<close>.\<close>

definition reraise :: "exn + model_instance \<Rightarrow> exn + model_instance" where
  "reraise r = (case r of Inl e \<Rightarrow> Inl LnurlResponseException | Inr x \<Rightarrow> Inr x)"

definition from_dict :: "lnurl_types \<Rightarrow> pydict \<Rightarrow> (exn + model_instance) \<times> pydict" where
  "from_dict T d = (case from_dict_try T d of (r, d1) \<Rightarrow> (reraise r, d1))"

section \<open>The scalar types and sample values\<close>

text \<open>
  \<open>supplied d a n\<close> is the value that \<^verbatim>\<open>Model(**d)\<close> reads for the field with alias
  \<open>a\<close> and name \<open>n\<close>: the one under the alias, else the one under the name.
\<close>

definition supplied :: "pydict \<Rightarrow> str \<Rightarrow> str \<Rightarrow> pyval option" where
  "supplied d a n = (case d a of Some v \<Rightarrow> Some v | None \<Rightarrow> d n)"

text \<open>
  Modelled from the spec: the validators of \<^verbatim>\<open>lnurl.types\<close>, which is not among the
  sources, after section 3 of the specification. Each accepts a part of what the
  section describes, so that a value accepted here is one of the described form. The
  theorems below hold for every choice of validators; these only serve to run the model
  on concrete mappings.

  \<open>HttpsUrl\<close>: a URL with the scheme \<^verbatim>\<open>https\<close>, or with \<^verbatim>\<open>http\<close> and a host
  that ends in \<^verbatim>\<open>.onion\<close>. Here the host is a dotted name of letters, digits and
  hyphens, without a port, and the URL holds no blank.
\<close>

definition endswith :: "str \<Rightarrow> str \<Rightarrow> bool" where
  "endswith s p = (length p \<le> length s \<and> drop (length s - length p) s = p)"

definition host_char :: "nat \<Rightarrow> bool" where
  "host_char c =
     ((48 \<le> c \<and> c \<le> 57) \<or> (65 \<le> c \<and> c \<le> 90) \<or> (97 \<le> c \<and> c \<le> 122) \<or> c = 45 \<or> c = 46)"

definition is_host :: "str \<Rightarrow> bool" where
  "is_host h =
     (h \<noteq> [] \<and> list_all host_char h \<and> list_ex (\<lambda>c. c = 46) h \<and>
      hd h \<noteq> 45 \<and> hd h \<noteq> 46 \<and> last h \<noteq> 45 \<and> last h \<noteq> 46)"

definition is_https_url :: "str \<Rightarrow> bool" where
  "is_https_url s =
     (let secure = startswith s (lit ''https://'');
          rest = drop (if secure then 8 else 7) s;
          host = takeWhile (\<lambda>c. c \<noteq> 47 \<and> c \<noteq> 63 \<and> c \<noteq> 35) rest
      in (secure \<or> (startswith s (lit ''http://'') \<and> endswith host (lit ''.onion''))) \<and>
         is_host host \<and> list_all (\<lambda>c. 33 \<le> c \<and> c \<le> 126) s)"

text \<open>
  Modelled from the spec: \<open>LightningInvoice\<close> is a string in the BOLT-11 encoding,
  checked for its structure only. A BOLT-11 invoice is a bech32 string whose prefix starts with \<^verbatim>\<open>ln\<close> and
  whose data part holds at least the timestamp (7 groups of 5 bits) and the signature
  (104 groups). It is decoded with \<^verbatim>\<open>_bech32_decode\<close> of \<^verbatim>\<open>tools.py\<close>, which
  takes any prefix when \<^verbatim>\<open>allowed_hrp\<close> is left out.
\<close>

definition is_invoice :: "str \<Rightarrow> bool" where
  "is_invoice s =
     (case bech32_decode_tools s None of
        Inl e \<Rightarrow> False
      | Inr (hrp, data) \<Rightarrow> startswith hrp (lit ''ln'') \<and> 111 \<le> length data)"

text \<open>
  Modelled from the spec: \<open>LightningNodeUri\<close> is a string of the form
  \<^verbatim>\<open><33-byte-hex-pubkey>@<host>:<port>\<close>, that is 66 hexadecimal digits, one
  \<^verbatim>\<open>@\<close>, a host, one colon and a decimal port.
\<close>

definition hex_digit :: "nat \<Rightarrow> bool" where
  "hex_digit c = ((48 \<le> c \<and> c \<le> 57) \<or> (65 \<le> c \<and> c \<le> 70) \<or> (97 \<le> c \<and> c \<le> 102))"

definition is_node_uri :: "str \<Rightarrow> bool" where
  "is_node_uri s =
     (let pubkey = takeWhile (\<lambda>c. c \<noteq> 64) s;
          netloc = drop (length pubkey + 1) s;
          host = takeWhile (\<lambda>c. c \<noteq> 58) netloc;
          port = drop (length host + 1) netloc
      in length pubkey = 66 \<and> list_all hex_digit pubkey \<and>
         host \<noteq> [] \<and> list_all host_char host \<and>
         port \<noteq> [] \<and> list_all (\<lambda>c. 48 \<le> c \<and> c \<le> 57) port)"

text \<open>
  Modelled from the spec: \<open>LnurlPayMetadata\<close> is a string that holds a JSON array of
  \<^verbatim>\<open>[type, content]\<close> pairs with at least one entry of type \<^verbatim>\<open>text/plain\<close>. Here both members of a
  pair are JSON strings without escape sequences. \<open>json_lex\<close> splits the text into
  brackets, commas and strings (its first argument holds the characters of the string
  being read), \<open>json_pairs\<close> reads the pairs between the outer brackets.
\<close>

datatype json_token = LBracket | RBracket | Comma | JString str

fun json_lex :: "str option \<Rightarrow> str \<Rightarrow> json_token list option" where
  "json_lex None [] = Some []"
| "json_lex (Some acc) [] = None"
| "json_lex None (c # cs) =
     (if c = 91 then map_option (Cons LBracket) (json_lex None cs)
      else if c = 93 then map_option (Cons RBracket) (json_lex None cs)
      else if c = 44 then map_option (Cons Comma) (json_lex None cs)
      else if c = 34 then json_lex (Some []) cs
      else if c = 32 \<or> c = 9 \<or> c = 10 \<or> c = 13 then json_lex None cs
      else None)"
| "json_lex (Some acc) (c # cs) =
     (if c = 34 then map_option (Cons (JString acc)) (json_lex None cs)
      else if c = 92 \<or> c < 32 then None
      else json_lex (Some (acc @ [c])) cs)"

fun json_pairs :: "json_token list \<Rightarrow> (str \<times> str) list option" where
  "json_pairs [LBracket, JString a, Comma, JString b, RBracket] = Some [(a, b)]"
| "json_pairs (LBracket # JString a # Comma # JString b # RBracket # Comma # ts) =
     map_option (Cons (a, b)) (json_pairs ts)"
| "json_pairs ts = None"

definition metadata_pairs :: "str \<Rightarrow> (str \<times> str) list option" where
  "metadata_pairs s =
     (case json_lex None s of
        None \<Rightarrow> None
      | Some ts \<Rightarrow>
          (if ts = [LBracket, RBracket] then Some []
           else if 2 \<le> length ts \<and> hd ts = LBracket \<and> last ts = RBracket
           then json_pairs (butlast (tl ts))
           else None))"

definition is_metadata :: "str \<Rightarrow> bool" where
  "is_metadata s =
     (case metadata_pairs s of
        None \<Rightarrow> False
      | Some ps \<Rightarrow> list_ex (\<lambda>p. fst p = lit ''text/plain'') ps)"

text \<open>
  Modelled from the spec: the validators together. A \<open>MilliSatoshi\<close> is a
  non-negative integer. The nested
  classes \<^verbatim>\<open>LnurlPaySuccessAction\<close> and \<^verbatim>\<open>LnurlPayRoute\<close> declare no field, so a
  mapping validates to an instance without attributes, unless one of its keys is the
  name of the first parameter of \<^verbatim>\<open>__init__\<close>.
\<close>

definition check_str :: "(str \<Rightarrow> bool) \<Rightarrow> str \<Rightarrow> pyval \<Rightarrow> str + pyval" where
  "check_str ok msg v = (case v of VStr s \<Rightarrow> if ok s then Inr v else Inl msg | _ \<Rightarrow> Inl msg)"

definition sample_types :: lnurl_types where
  "sample_types =
     \<lparr>validate_HttpsUrl = check_str is_https_url (lit ''invalid url''),
      validate_LightningInvoice = check_str is_invoice (lit ''invalid invoice''),
      validate_LightningNodeUri = check_str is_node_uri (lit ''invalid node uri''),
      validate_LnurlPayMetadata = check_str is_metadata (lit ''invalid metadata''),
      validate_MilliSatoshi =
        (\<lambda>v. case v of
               VInt n \<Rightarrow> if 0 \<le> n then Inr n else Inl (lit ''negative amount'')
             | _ \<Rightarrow> Inl (lit ''not an integer'')),
      validate_submodel =
        (\<lambda>m v. case v of
                 VDict kvs \<Rightarrow>
                   if list_ex (\<lambda>kv. fst kv = lit ''__pydantic_self__'') kvs
                   then Inl (lit ''TypeError'') else Inr (VDict [])
               | _ \<Rightarrow> Inl (lit ''value is not a valid dict''))\<rparr>"

text \<open>
  The metadata of the example of section 8 of the specification, and the invoice of
  2500 micro-bitcoin that BOLT 11 gives as an example.
\<close>

definition sample_metadata :: str where
  "sample_metadata = lit ''[[\"text/plain\",\"hi\"]]''"

definition sample_invoice :: str where
  "sample_invoice =
     lit ''lnbc2500u1pvjluezpp5qqqsyqcyq5rqwzqfqqqsyqcyq5rqwzqfqqqsyqcyq5rqwzqfqypqdq5xysxxatsyp3k7enxv4jsxqzpuaztrnwngzn3kdzw5hydlzf03qdgm2hdq27cqv3agm2awhz5se903vruatfhq77w3ls4evs3ch9zw97j25emudupq63nyw24cg27h2rspfj9srp''"

text \<open>
  The pay request of that example with the given bounds, as a service would send it,
  and a withdraw request.
\<close>

definition pay_request :: "int \<Rightarrow> int \<Rightarrow> pydict" where
  "pay_request lo hi =
     [lit ''tag'' \<mapsto> VStr (lit ''payRequest''),
      lit ''callback'' \<mapsto> VStr (lit ''https://x.com/cb''),
      lit ''minSendable'' \<mapsto> VInt lo,
      lit ''maxSendable'' \<mapsto> VInt hi,
      lit ''metadata'' \<mapsto> VStr sample_metadata]"

definition withdraw_request :: "int \<Rightarrow> int \<Rightarrow> pydict" where
  "withdraw_request lo hi =
     [lit ''tag'' \<mapsto> VStr (lit ''withdrawRequest''),
      lit ''callback'' \<mapsto> VStr (lit ''https://x.com/cb''),
      lit ''k1'' \<mapsto> VStr (lit ''c3RyaW5n''),
      lit ''minWithdrawable'' \<mapsto> VInt lo,
      lit ''maxWithdrawable'' \<mapsto> VInt hi]"

text \<open>The instances that construction gives for them.\<close>

definition pay_response :: "int \<Rightarrow> int \<Rightarrow> model_instance" where
  "pay_response lo hi =
     \<lparr>cls = LnurlPayResponse,
      attrs = [lit ''tag'' \<mapsto> VStr (lit ''payRequest''),
               lit ''callback'' \<mapsto> VStr (lit ''https://x.com/cb''),
               lit ''min_sendable'' \<mapsto> VInt lo,
               lit ''max_sendable'' \<mapsto> VInt hi,
               lit ''metadata'' \<mapsto> VStr sample_metadata]\<rparr>"

definition withdraw_response :: "int \<Rightarrow> int \<Rightarrow> model_instance" where
  "withdraw_response lo hi =
     \<lparr>cls = LnurlWithdrawResponse,
      attrs = [lit ''tag'' \<mapsto> VStr (lit ''withdrawRequest''),
               lit ''callback'' \<mapsto> VStr (lit ''https://x.com/cb''),
               lit ''k1'' \<mapsto> VStr (lit ''c3RyaW5n''),
               lit ''min_withdrawable'' \<mapsto> VInt lo,
               lit ''max_withdrawable'' \<mapsto> VInt hi,
               lit ''default_description'' \<mapsto> VStr []]\<rparr>"

section \<open>Notions used in the proofs\<close>

text \<open>
  The part of a round of \<open>bech32_polymod\<close> that does not depend on the value taken
  in: the low 25 bits shifted up by 5, and the generators that the top 5 bits select.
\<close>

definition gen_if :: "int \<Rightarrow> nat \<Rightarrow> int" where
  "gen_if c i = (if bit c (25 + i) then generator ! i else 0)"

definition polymod_shift :: "int \<Rightarrow> int" where
  "polymod_shift c =
     push_bit 5 (take_bit 25 c) XOR gen_if c 0 XOR gen_if c 1 XOR gen_if c 2 XOR gen_if c 3
       XOR gen_if c 4"

text \<open>
  The number that a list of \<open>w\<close>-bit digits writes after the digits of \<open>a\<close>, most
  significant digit first; lists of \<open>w\<close>-bit digits; and the number that a state
  \<open>(acc, bits, ret)\<close> of \<open>convert_loop\<close> stands for: the digits emitted so far,
  followed by the low \<open>bits\<close> bits of the accumulator.
\<close>

definition digits_value :: "nat \<Rightarrow> int \<Rightarrow> int list \<Rightarrow> int" where
  "digits_value w a xs = foldl (\<lambda>a x. a * 2 ^ w + x) a xs"

definition in_range :: "nat \<Rightarrow> int list \<Rightarrow> bool" where
  "in_range w xs = list_all (\<lambda>x. 0 \<le> x \<and> x < 2 ^ w) xs"

definition state_value :: "nat \<Rightarrow> int \<Rightarrow> nat \<Rightarrow> int list \<Rightarrow> int" where
  "state_value t acc bits ret = digits_value t 0 ret * 2 ^ bits + take_bit bits acc"

text \<open>Printable ASCII: the code points from the space to the tilde.\<close>

definition printable :: "str \<Rightarrow> bool" where
  "printable url = list_all (\<lambda>c. 32 \<le> c \<and> c \<le> 126) url"

text \<open>
  What the proof of the round trip needs of a character of the charset: it is not the
  separator, and its upper case is printable, stays as it is in upper case again and
  goes back to the character in lower case.
\<close>

definition charset_like :: "nat \<Rightarrow> bool" where
  "charset_like c \<longleftrightarrow>
     c \<noteq> 49 \<and> 33 \<le> upper_cp c \<and> upper_cp c \<le> 126 \<and> lower_cp (upper_cp c) = c \<and>
     upper_cp (upper_cp c) = upper_cp c"

section \<open>Facts about the embedding\<close>

lemma lit_inject [simp]: "lit a = lit b \<longleftrightarrow> a = b"
  unfolding lit_def by (rule inj_map_eq_map) (simp add: inj_on_def)

lemma upper_error: "upper (lit ''error'') = lit ''ERROR''"
  by code_simp

lemma cfg_allow: "allow_population_by_field_name LnurlResponseModel_Config"
  by (simp add: LnurlResponseModel_Config_def)

lemma validate_model_step:
  "validate_model T LnurlResponseModel_Config inp (f # fs) vals errs =
     (case supplied inp (field_alias f) (field_name f) of
        None \<Rightarrow>
          (if required f
           then validate_model T LnurlResponseModel_Config inp fs vals
                  (errs @ [(field_alias f, lit ''field required'')])
           else validate_model T LnurlResponseModel_Config inp fs
                  (vals(field_name f \<mapsto> default f)) errs)
      | Some v \<Rightarrow>
          (case validate_field T f v vals of
             Inl msg \<Rightarrow>
               validate_model T LnurlResponseModel_Config inp fs vals
                 (errs @ [(field_alias f, msg)])
           | Inr v1 \<Rightarrow>
               validate_model T LnurlResponseModel_Config inp fs
                 (vals(field_name f \<mapsto> v1)) errs))"
  by (simp add: supplied_def cfg_allow split: option.splits)

lemma validate_model_errors:
  "\<exists>e'. snd (validate_model T cfg inp fs vals errs) = errs @ e'"
proof (induction fs arbitrary: vals errs)
  case Nil
  then show ?case by simp
next
  case (Cons f fs)
  have a: "\<exists>e'. snd (validate_model T cfg inp fs vs (errs @ [x])) = errs @ e'" for vs x
    using Cons.IH [of vs "errs @ [x]"] by auto
  show ?case
    using a Cons.IH by (simp split: option.splits sum.splits)
qed

lemma validate_model_no_errors:
  "snd (validate_model T cfg inp fs vals errs) = [] \<Longrightarrow> errs = []"
  using validate_model_errors [of T cfg inp fs vals errs] by auto

lemma validate_model_keeps_errors:
  "x \<in> set errs \<Longrightarrow> x \<in> set (snd (validate_model T cfg inp fs vals errs))"
  using validate_model_errors [of T cfg inp fs vals errs] by auto

lemma validate_model_other:
  "n \<notin> field_name ` set fs \<Longrightarrow> fst (validate_model T cfg inp fs vals errs) n = vals n"
  by (induction fs arbitrary: vals errs) (auto split: option.splits sum.splits)

lemma validate_model_append:
  "validate_model T cfg inp (fs @ gs) vals errs =
     (case validate_model T cfg inp fs vals errs of
        (v, e) \<Rightarrow> validate_model T cfg inp gs v e)"
  by (induction fs arbitrary: vals errs) (auto split: option.splits sum.splits)

lemma validate_model_Cons_cases:
  "\<exists>vals1 errs1.
     validate_model T cfg inp (f # fs) vals errs = validate_model T cfg inp fs vals1 errs1 \<and>
     ((\<exists>x. errs1 = errs @ [x] \<and> vals1 = vals) \<or>
      (\<exists>v. vals1 = vals(field_name f \<mapsto> v) \<and> errs1 = errs))"
proof -
  let ?look = "case inp (field_alias f) of
                 Some v \<Rightarrow> Some v
               | None \<Rightarrow> if allow_population_by_field_name cfg then inp (field_name f) else None"
  show ?thesis
  proof (cases ?look)
    case None
    show ?thesis
    proof (cases "required f")
      case True
      with None have "validate_model T cfg inp (f # fs) vals errs =
          validate_model T cfg inp fs vals (errs @ [(field_alias f, lit ''field required'')])"
        by simp
      then show ?thesis by blast
    next
      case False
      with None have "validate_model T cfg inp (f # fs) vals errs =
          validate_model T cfg inp fs (vals(field_name f \<mapsto> default f)) errs"
        by simp
      then show ?thesis by blast
    qed
  next
    case (Some v)
    show ?thesis
    proof (cases "validate_field T f v vals")
      case (Inl msg)
      with Some have "validate_model T cfg inp (f # fs) vals errs =
          validate_model T cfg inp fs vals (errs @ [(field_alias f, msg)])"
        by simp
      then show ?thesis by blast
    next
      case (Inr v1)
      with Some have "validate_model T cfg inp (f # fs) vals errs =
          validate_model T cfg inp fs (vals(field_name f \<mapsto> v1)) errs"
        by simp
      then show ?thesis by blast
    qed
  qed
qed

lemma validate_model_dom:
  "snd (validate_model T cfg inp fs vals errs) = [] \<Longrightarrow>
   dom (fst (validate_model T cfg inp fs vals errs)) = dom vals \<union> field_name ` set fs"
proof (induction fs arbitrary: vals errs)
  case Nil
  then show ?case by simp
next
  case (Cons f fs)
  obtain vals1 errs1 where
    step: "validate_model T cfg inp (f # fs) vals errs = validate_model T cfg inp fs vals1 errs1"
    and alt: "(\<exists>x. errs1 = errs @ [x] \<and> vals1 = vals) \<or>
              (\<exists>v. vals1 = vals(field_name f \<mapsto> v) \<and> errs1 = errs)"
    using validate_model_Cons_cases [of T cfg inp f fs vals errs] by blast
  from Cons.prems step have e: "snd (validate_model T cfg inp fs vals1 errs1) = []"
    by simp
  then have "errs1 = []"
    by (rule validate_model_no_errors)
  with alt obtain v where v: "vals1 = vals(field_name f \<mapsto> v)"
    by auto
  from Cons.IH [OF e] have "dom (fst (validate_model T cfg inp fs vals1 errs1)) =
      dom vals1 \<union> field_name ` set fs" .
  with step v show ?case
    by auto
qed

lemma construct_self: "lit ''__pydantic_self__'' \<in> dom d \<Longrightarrow> construct T m d = Inl TypeError"
  by (simp add: construct_def)

lemma construct_init:
  "lit ''__pydantic_self__'' \<notin> dom d \<Longrightarrow> construct T m d = BaseModel_init T m d"
  by (simp add: construct_def)

lemma construct_Inr:
  "construct T m d = Inr r \<longleftrightarrow>
     lit ''__pydantic_self__'' \<notin> dom d \<and> BaseModel_init T m d = Inr r"
  by (simp add: construct_def)

lemma cls_init: "BaseModel_init T m d = Inr r \<Longrightarrow> cls r = m"
  by (auto simp add: BaseModel_init_def split: prod.splits if_splits)

lemma cls_construct: "construct T m d = Inr r \<Longrightarrow> cls r = m"
  by (auto simp add: construct_Inr dest: cls_init)

lemma dom_init:
  assumes "BaseModel_init T m d = Inr r"
  shows "dom (attrs r) = field_name ` set (model_fields m)"
proof -
  obtain v e where ve: "validate_model T LnurlResponseModel_Config d (model_fields m) Map.empty [] = (v, e)"
    by (cases "validate_model T LnurlResponseModel_Config d (model_fields m) Map.empty []")
  with assms have "e = []" and "attrs r = v"
    by (auto simp add: BaseModel_init_def split: if_splits)
  with ve validate_model_dom [of T LnurlResponseModel_Config d "model_fields m" Map.empty "[]"]
  show ?thesis by simp
qed

lemma dom_construct:
  "construct T m d = Inr r \<Longrightarrow> dom (attrs r) = field_name ` set (model_fields m)"
  using dom_init [of T m d r] by (simp add: construct_Inr)

lemma distinct_field_names: "distinct (map field_name (model_fields m))"
  by (cases m) (simp_all add: required_field_def default_field_def)

lemma validate_model_keeps:
  assumes "field_name ` set fs \<inter> dom vals0 = {}"
  shows "fst (validate_model T cfg inp fs vals0 errs0) |` dom vals0 = vals0"
proof
  fix n
  show "(fst (validate_model T cfg inp fs vals0 errs0) |` dom vals0) n = vals0 n"
  proof (cases "n \<in> dom vals0")
    case True
    with assms have "n \<notin> field_name ` set fs"
      by auto
    then have "fst (validate_model T cfg inp fs vals0 errs0) n = vals0 n"
      by (rule validate_model_other)
    with True show ?thesis
      by simp
  next
    case False
    then show ?thesis
      by (simp add: restrict_map_def domIff)
  qed
qed

lemma validate_model_sound:
  assumes "validate_model T LnurlResponseModel_Config inp fs vals0 errs0 = (vals, [])"
    and "distinct (map field_name fs)" and "field_name ` set fs \<inter> dom vals0 = {}"
    and "fs = pre @ f # post"
  shows "case supplied inp (field_alias f) (field_name f) of
           None \<Rightarrow> \<not> required f \<and> vals (field_name f) = Some (default f)
         | Some v \<Rightarrow>
             (\<exists>w. validate_field T f v (vals |` (dom vals0 \<union> field_name ` set pre)) = Inr w \<and>
                  vals (field_name f) = Some w)"
  using assms
proof (induction pre arbitrary: fs vals0 errs0)
  case Nil
  then have fs: "fs = f # post"
    by simp
  from Nil.prems(2) fs have nf: "field_name f \<notin> field_name ` set post"
    by auto
  from Nil.prems(3) fs have disj: "field_name ` set post \<inter> dom vals0 = {}"
    and fresh: "field_name f \<notin> dom vals0"
    by auto
  have keep: "vals |` dom vals0 = vals0"
    using validate_model_keeps [OF Nil.prems(3), of T LnurlResponseModel_Config inp errs0]
      Nil.prems(1) by simp
  show ?case
  proof (cases "supplied inp (field_alias f) (field_name f)")
    case None
    show ?thesis
    proof (cases "required f")
      case True
      with None Nil.prems(1) fs have
        "validate_model T LnurlResponseModel_Config inp post vals0
           (errs0 @ [(field_alias f, lit ''field required'')]) = (vals, [])"
        by (simp add: validate_model_step del: validate_model.simps(2))
      then have "errs0 @ [(field_alias f, lit ''field required'')] = []"
        using validate_model_no_errors [of T LnurlResponseModel_Config inp post vals0
            "errs0 @ [(field_alias f, lit ''field required'')]"] by simp
      then show ?thesis
        by simp
    next
      case False
      with None Nil.prems(1) fs have
        "validate_model T LnurlResponseModel_Config inp post
           (vals0(field_name f \<mapsto> default f)) errs0 = (vals, [])"
        by (simp add: validate_model_step del: validate_model.simps(2))
      then have "vals (field_name f) = (vals0(field_name f \<mapsto> default f)) (field_name f)"
        using validate_model_other [OF nf, of T LnurlResponseModel_Config inp
            "vals0(field_name f \<mapsto> default f)" errs0] by simp
      with None False show ?thesis
        by simp
    qed
  next
    case (Some v)
    show ?thesis
    proof (cases "validate_field T f v vals0")
      case (Inl msg)
      with Some Nil.prems(1) fs have
        "validate_model T LnurlResponseModel_Config inp post vals0
           (errs0 @ [(field_alias f, msg)]) = (vals, [])"
        by (simp add: validate_model_step del: validate_model.simps(2))
      then have "errs0 @ [(field_alias f, msg)] = []"
        using validate_model_no_errors [of T LnurlResponseModel_Config inp post vals0
            "errs0 @ [(field_alias f, msg)]"] by simp
      then show ?thesis
        by simp
    next
      case (Inr w)
      with Some Nil.prems(1) fs have
        "validate_model T LnurlResponseModel_Config inp post
           (vals0(field_name f \<mapsto> w)) errs0 = (vals, [])"
        by (simp add: validate_model_step del: validate_model.simps(2))
      then have "vals (field_name f) = (vals0(field_name f \<mapsto> w)) (field_name f)"
        using validate_model_other [OF nf, of T LnurlResponseModel_Config inp
            "vals0(field_name f \<mapsto> w)" errs0] by simp
      with Some Inr keep show ?thesis
        by simp
    qed
  qed
next
  case (Cons g pre)
  define rest where "rest = pre @ f # post"
  from Cons.prems(4) have fs: "fs = g # rest"
    by (simp add: rest_def)
  obtain vals1 errs1 where
    step: "validate_model T LnurlResponseModel_Config inp (g # rest) vals0 errs0 =
           validate_model T LnurlResponseModel_Config inp rest vals1 errs1"
    and alt: "(\<exists>x. errs1 = errs0 @ [x] \<and> vals1 = vals0) \<or>
              (\<exists>v. vals1 = vals0(field_name g \<mapsto> v) \<and> errs1 = errs0)"
    using validate_model_Cons_cases [of T LnurlResponseModel_Config inp g rest vals0 errs0]
    by blast
  from Cons.prems(1) fs step have r: "validate_model T LnurlResponseModel_Config inp rest vals1 errs1
      = (vals, [])"
    by simp
  then have "errs1 = []"
    using validate_model_no_errors [of T LnurlResponseModel_Config inp rest vals1 errs1] by simp
  with alt obtain v where v1: "vals1 = vals0(field_name g \<mapsto> v)"
    by auto
  from Cons.prems(2) fs have d: "distinct (map field_name rest)"
    and ng: "field_name g \<notin> field_name ` set rest"
    by auto
  from Cons.prems(3) fs ng v1 have disj: "field_name ` set rest \<inter> dom vals1 = {}"
    by auto
  have eq: "dom vals1 \<union> field_name ` set pre = dom vals0 \<union> field_name ` set (g # pre)"
    by (auto simp add: v1)
  from Cons.IH [OF r d disj rest_def] show ?case
    unfolding eq .
qed

lemma construct_sound:
  assumes "construct T m d = Inr r" and "model_fields m = pre @ f # post"
  shows "case supplied d (field_alias f) (field_name f) of
           None \<Rightarrow> \<not> required f \<and> attrs r (field_name f) = Some (default f)
         | Some v \<Rightarrow>
             (\<exists>w. validate_field T f v (attrs r |` (field_name ` set pre)) = Inr w \<and>
                  attrs r (field_name f) = Some w)"
proof -
  from assms(1) have i: "BaseModel_init T m d = Inr r"
    by (simp add: construct_Inr)
  obtain v e where ve: "validate_model T LnurlResponseModel_Config d (model_fields m) Map.empty [] = (v, e)"
    by (cases "validate_model T LnurlResponseModel_Config d (model_fields m) Map.empty []")
  with i have "e = []" and "attrs r = v"
    by (auto simp add: BaseModel_init_def split: if_splits)
  with ve validate_model_sound [of T d "model_fields m" Map.empty "[]" v pre f post]
    distinct_field_names [of m] assms(2)
  show ?thesis
    by (simp cong: option.case_cong)
qed

lemma init_Success:
  "d (lit ''status'') = None \<Longrightarrow>
   BaseModel_init T LnurlSuccessResponse d =
     Inr \<lparr>cls = LnurlSuccessResponse, attrs = [lit ''status'' \<mapsto> VStr (lit ''OK'')]\<rparr>"
  by (simp add: BaseModel_init_def default_field_def LnurlResponseModel_Config_def)

lemma init_Error:
  "d (lit ''status'') = Some (VStr (lit ''ERROR'')) \<Longrightarrow>
   BaseModel_init T LnurlErrorResponse d =
     (case d (lit ''reason'') of
        None \<Rightarrow> Inl (ValidationError [(lit ''reason'', lit ''field required'')])
      | Some v \<Rightarrow>
         (case str_validator v of
            Inl msg \<Rightarrow> Inl (ValidationError [(lit ''reason'', msg)])
          | Inr v1 \<Rightarrow>
              Inr \<lparr>cls = LnurlErrorResponse,
                   attrs = [lit ''status'' \<mapsto> VStr (lit ''ERROR''), lit ''reason'' \<mapsto> v1]\<rparr>))"
  by (simp add: BaseModel_init_def default_field_def required_field_def LnurlResponseModel_Config_def
        validate_field_def split: option.splits sum.splits)

lemma snd_from_dict_tagged:
  "snd (from_dict_tagged T d) = (if lit ''tag'' \<in> dom d then d(lit ''status'' := None) else d)"
  by (simp add: from_dict_tagged_def Let_def dom_def split: option.splits sum.splits)

lemma snd_from_dict: "snd (from_dict T d) = snd (from_dict_try T d)"
  by (simp add: from_dict_def split: prod.splits)

text \<open>The sample validators on the sample values.\<close>

lemma sample_HttpsUrl:
  "validate_HttpsUrl sample_types (VStr (lit ''https://x.com/cb'')) =
     Inr (VStr (lit ''https://x.com/cb''))"
  by code_simp

lemma sample_MilliSatoshi:
  "validate_MilliSatoshi sample_types (VInt n) =
     (if 0 \<le> n then Inr n else Inl (lit ''negative amount''))"
  by (simp add: sample_types_def)

lemma sample_LnurlPayMetadata:
  "validate_LnurlPayMetadata sample_types (VStr sample_metadata) = Inr (VStr sample_metadata)"
  by code_simp

lemma sample_LightningInvoice:
  "validate_LightningInvoice sample_types (VStr sample_invoice) = Inr (VStr sample_invoice)"
  by code_simp

lemma sample_submodel:
  "validate_submodel sample_types m (VDict []) = Inr (VDict [])"
  by (simp add: sample_types_def)

lemmas sample_simps =
  sample_HttpsUrl sample_MilliSatoshi sample_LnurlPayMetadata sample_LightningInvoice
  sample_submodel

section \<open>Classification\<close>

text \<open>
  C2, as the code has it. A mapping whose \<^verbatim>\<open>status\<close> is a string equal to
  \<^verbatim>\<open>error\<close> up to case takes the Error branch whether or not it has a \<^verbatim>\<open>tag\<close>:
  the stored status becomes \<^verbatim>\<open>ERROR\<close> and the outcome is that of
  \<^verbatim>\<open>LnurlErrorResponse(**d)\<close>. That is the Error instance when the mapping holds a
  \<^verbatim>\<open>reason\<close> that validates as a string and no key with the name of the first
  parameter of pydantic's constructor, and the classification error in every other
  case. No other key of the mapping, \<^verbatim>\<open>tag\<close> included, has a say, and the outcome is
  never a tagged variant.
\<close>

theorem from_dict_error_precedence:
  assumes "d (lit ''status'') = Some (VStr s)" and "upper s = upper (lit ''error'')"
  shows "from_dict T d =
      ((if lit ''__pydantic_self__'' \<in> dom d then Inl LnurlResponseException
        else
          (case d (lit ''reason'') of
             None \<Rightarrow> Inl LnurlResponseException
           | Some v \<Rightarrow>
              (case str_validator v of
                 Inl msg \<Rightarrow> Inl LnurlResponseException
               | Inr v1 \<Rightarrow>
                   Inr \<lparr>cls = LnurlErrorResponse,
                        attrs = [lit ''status'' \<mapsto> VStr (lit ''ERROR''), lit ''reason'' \<mapsto> v1]\<rparr>))),
       d(lit ''status'' \<mapsto> VStr (lit ''ERROR'')))"
proof (cases "lit ''__pydantic_self__'' \<in> dom d")
  case True
  then have "construct T LnurlErrorResponse (d(lit ''status'' \<mapsto> VStr (lit ''ERROR''))) =
      Inl TypeError"
    by (simp add: construct_self)
  with True assms show ?thesis
    by (simp add: from_dict_def from_dict_try_def reraise_def upper_error)
next
  case False
  then have "construct T LnurlErrorResponse (d(lit ''status'' \<mapsto> VStr (lit ''ERROR''))) =
      BaseModel_init T LnurlErrorResponse (d(lit ''status'' \<mapsto> VStr (lit ''ERROR'')))"
    by (simp add: construct_init)
  with False assms show ?thesis
    by (simp add: from_dict_def from_dict_try_def init_Error reraise_def upper_error
          split: option.splits sum.splits)
qed

theorem from_dict_error_precedence_witness:
  "upper (lit ''Error'') = upper (lit ''error'') \<and>
   fst (from_dict sample_types
          ((pay_request 1000 2000)
             (lit ''status'' \<mapsto> VStr (lit ''Error''), lit ''reason'' \<mapsto> VStr (lit ''no funds'')))) =
     Inr \<lparr>cls = LnurlErrorResponse,
          attrs = [lit ''status'' \<mapsto> VStr (lit ''ERROR''),
                   lit ''reason'' \<mapsto> VStr (lit ''no funds'')]\<rparr>"
proof -
  have u: "upper (lit ''Error'') = upper (lit ''error'')"
    by code_simp
  show ?thesis
    using u from_dict_error_precedence
      [of "(pay_request 1000 2000)
             (lit ''status'' \<mapsto> VStr (lit ''Error''), lit ''reason'' \<mapsto> VStr (lit ''no funds''))"
          "lit ''Error''" sample_types]
    by (simp add: str_validator_def pay_request_def)
qed

text \<open>
  The claim C2 as stated fails: a mapping with the status \<^verbatim>\<open>error\<close> and a tag but
  without a \<^verbatim>\<open>reason\<close> is not classified as the Error variant, the call raises the
  classification error; and so does one with a \<^verbatim>\<open>reason\<close> and a key named as the
  first parameter of pydantic's constructor.
\<close>

theorem from_dict_error_precedence_counterexample:
  "(\<forall>T. fst (from_dict T [lit ''status'' \<mapsto> VStr (lit ''error''),
                          lit ''tag'' \<mapsto> VStr (lit ''payRequest'')]) =
          Inl LnurlResponseException) \<and>
   (\<forall>T. fst (from_dict T [lit ''status'' \<mapsto> VStr (lit ''error''),
                          lit ''reason'' \<mapsto> VStr (lit ''no''),
                          lit ''__pydantic_self__'' \<mapsto> VInt 1]) =
          Inl LnurlResponseException)"
  by (simp add: from_dict_def from_dict_try_def reraise_def upper_error construct_def init_Error
        Let_def domIff)

text \<open>
  C9. A \<^verbatim>\<open>status\<close> that is not a string makes \<^verbatim>\<open>from_dict\<close> raise the classification
  error, whatever else the mapping holds, a recognised \<^verbatim>\<open>tag\<close> included; the mapping is
  left as it was.
\<close>

theorem from_dict_status_not_str:
  assumes "d (lit ''status'') = Some v" and "\<not> is_str v"
  shows "from_dict T d = (Inl LnurlResponseException, d)"
  using assms by (cases v) (simp_all add: from_dict_def from_dict_try_def reraise_def is_str_def)

theorem from_dict_status_not_str_witness:
  "\<not> is_str (VInt 1) \<and>
   fst (from_dict sample_types ((pay_request 1000 2000)(lit ''status'' \<mapsto> VInt 1))) =
     Inl LnurlResponseException"
  using from_dict_status_not_str
    [of "(pay_request 1000 2000)(lit ''status'' \<mapsto> VInt 1)" "VInt 1" sample_types]
  by (simp add: is_str_def)

text \<open>
  C10, as the code has it. A mapping with none of the keys \<^verbatim>\<open>status\<close>, \<^verbatim>\<open>tag\<close>
  and \<^verbatim>\<open>success_action\<close> reaches \<^verbatim>\<open>LnurlSuccessResponse(**d)\<close> and is left as it
  was. The call gives the bare Success variant with status \<^verbatim>\<open>OK\<close>, every other key
  being ignored, \<^verbatim>\<open>successAction\<close> among them, unless a key has the name of the first
  parameter of pydantic's constructor: then the call raises \<^verbatim>\<open>TypeError\<close> and
  \<^verbatim>\<open>from_dict\<close> the classification error.
\<close>

theorem from_dict_bare_success:
  assumes "d (lit ''status'') = None" and "d (lit ''tag'') = None"
    and "d (lit ''success_action'') = None"
  shows "from_dict T d =
           (if lit ''__pydantic_self__'' \<in> dom d then Inl LnurlResponseException
            else Inr \<lparr>cls = LnurlSuccessResponse, attrs = [lit ''status'' \<mapsto> VStr (lit ''OK'')]\<rparr>,
            d)"
  using assms
  by (simp add: from_dict_def from_dict_try_def from_dict_tagged_def construct_def init_Success
        reraise_def domIff)

theorem from_dict_bare_success_witness:
  "fst (from_dict sample_types
          [lit ''successAction'' \<mapsto> VDict [(lit ''tag'', VStr (lit ''url''))],
           lit ''pr'' \<mapsto> VInt 7, lit ''reason'' \<mapsto> VNone]) =
     Inr \<lparr>cls = LnurlSuccessResponse, attrs = [lit ''status'' \<mapsto> VStr (lit ''OK'')]\<rparr>"
  using from_dict_bare_success
    [of "[lit ''successAction'' \<mapsto> VDict [(lit ''tag'', VStr (lit ''url''))],
          lit ''pr'' \<mapsto> VInt 7, lit ''reason'' \<mapsto> VNone]" sample_types]
  by simp

text \<open>
  The claim C10 as stated fails: the mapping below has string keys and none of the
  three keys, and \<^verbatim>\<open>from_dict\<close> raises the classification error on it.
\<close>

theorem from_dict_bare_success_counterexample:
  "\<forall>T. from_dict T [lit ''__pydantic_self__'' \<mapsto> VInt 1] =
          (Inl LnurlResponseException, [lit ''__pydantic_self__'' \<mapsto> VInt 1])"
  by (simp add: from_dict_def from_dict_try_def from_dict_tagged_def construct_def reraise_def
        domIff)

text \<open>
  C4, as the code has it. A mapping without \<^verbatim>\<open>tag\<close>, with a \<^verbatim>\<open>success_action\<close> key
  and with a \<^verbatim>\<open>status\<close> that is absent or a string other than \<^verbatim>\<open>error\<close> up to case
  is handed to \<^verbatim>\<open>LnurlPayActionResponse\<close>: the outcome is that instance or the
  classification error, never the bare Success variant, and the mapping is left as it
  was.
\<close>

theorem from_dict_pay_action:
  assumes "d (lit ''tag'') = None" and "d (lit ''success_action'') = Some a"
    and "case d (lit ''status'') of
           None \<Rightarrow> True
         | Some v \<Rightarrow> (case v of VStr s \<Rightarrow> upper s \<noteq> upper (lit ''error'') | _ \<Rightarrow> False)"
  shows "from_dict T d = (reraise (construct T LnurlPayActionResponse d), d) \<and>
         (case fst (from_dict T d) of
            Inl e \<Rightarrow> e = LnurlResponseException
          | Inr r \<Rightarrow> cls r = LnurlPayActionResponse)"
proof -
  have "from_dict_try T d = (construct T LnurlPayActionResponse d, d)"
    using assms
    by (auto simp add: from_dict_try_def from_dict_tagged_def upper_error
          split: option.splits pyval.splits)
  then show ?thesis
    by (auto simp add: from_dict_def reraise_def cls_construct split: sum.splits)
qed

theorem from_dict_pay_action_witness:
  "fst (from_dict sample_types
          [lit ''success_action'' \<mapsto> VDict [], lit ''pr'' \<mapsto> VStr sample_invoice,
           lit ''status'' \<mapsto> VStr (lit ''OK'')]) =
     Inr \<lparr>cls = LnurlPayActionResponse,
          attrs = [lit ''pr'' \<mapsto> VStr sample_invoice, lit ''success_action'' \<mapsto> VDict [],
                   lit ''routes'' \<mapsto> VList []]\<rparr>"
proof -
  have u: "upper (lit ''OK'') \<noteq> upper (lit ''error'')"
    by code_simp
  show ?thesis
    using u from_dict_pay_action
      [of "[lit ''success_action'' \<mapsto> VDict [], lit ''pr'' \<mapsto> VStr sample_invoice,
            lit ''status'' \<mapsto> VStr (lit ''OK'')]" "VDict []" sample_types]
    by (simp add: reraise_def construct_def BaseModel_init_def required_field_def
          default_field_def validate_field_def LnurlResponseModel_Config_def sample_simps)
qed

text \<open>
  The claim C4 as stated fails on a mapping whose only marker is the alias
  \<^verbatim>\<open>successAction\<close>, which gives the bare Success variant, and on one whose
  \<^verbatim>\<open>status\<close> is a number, which raises.
\<close>

theorem from_dict_pay_action_counterexample:
  "(\<forall>T. fst (from_dict T [lit ''successAction'' \<mapsto> VDict [], lit ''pr'' \<mapsto> VStr (lit ''lnbc1'')]) =
          Inr \<lparr>cls = LnurlSuccessResponse, attrs = [lit ''status'' \<mapsto> VStr (lit ''OK'')]\<rparr>) \<and>
   (\<forall>T. fst (from_dict T [lit ''success_action'' \<mapsto> VDict [], lit ''pr'' \<mapsto> VStr (lit ''lnbc1''),
                          lit ''status'' \<mapsto> VInt 0]) =
          Inl LnurlResponseException)"
  by (simp add: from_dict_def from_dict_try_def from_dict_tagged_def construct_def init_Success
        reraise_def domIff)

section \<open>Effects on the mapping\<close>

text \<open>
  C6, as the code has it. \<^verbatim>\<open>from_dict\<close> writes to the mapping it is given in two
  cases: a \<^verbatim>\<open>status\<close> equal to \<^verbatim>\<open>error\<close> up to case is stored back in upper case,
  and otherwise a string \<^verbatim>\<open>status\<close> is removed when the mapping has a \<^verbatim>\<open>tag\<close>. In
  every other case, and under every other key, the mapping is left as it was, whether
  the classification succeeds or fails.
\<close>

theorem from_dict_mapping_after:
  "snd (from_dict T d) =
     (case d (lit ''status'') of
        None \<Rightarrow> d
      | Some v \<Rightarrow>
          (case v of
             VStr s \<Rightarrow>
               if upper s = upper (lit ''error'') then d(lit ''status'' \<mapsto> VStr (lit ''ERROR''))
               else if lit ''tag'' \<in> dom d then d(lit ''status'' := None)
               else d
           | _ \<Rightarrow> d))"
proof (cases "d (lit ''status'')")
  case None
  then have "d(lit ''status'' := None) = d"
    by (simp add: fun_upd_idem)
  with None show ?thesis
    by (simp add: snd_from_dict from_dict_try_def snd_from_dict_tagged)
next
  case (Some v)
  then show ?thesis
    by (cases v)
      (simp_all add: snd_from_dict from_dict_try_def snd_from_dict_tagged Let_def upper_error)
qed

theorem from_dict_mapping_after_witness:
  "snd (from_dict sample_types ((pay_request 1000 2000)(lit ''status'' \<mapsto> VStr (lit ''OK''))))
     = pay_request 1000 2000"
proof -
  have u: "upper (lit ''OK'') \<noteq> upper (lit ''error'')"
    by code_simp
  have "((pay_request 1000 2000)(lit ''status'' \<mapsto> VStr (lit ''OK'')))(lit ''status'' := None)
          = pay_request 1000 2000"
    by (simp add: pay_request_def)
  then show ?thesis
    using u from_dict_mapping_after
      [of sample_types "(pay_request 1000 2000)(lit ''status'' \<mapsto> VStr (lit ''OK''))"]
    by (simp add: pay_request_def dom_def)
qed

text \<open>
  The claim C6 as stated fails: after the call the caller's mapping holds \<^verbatim>\<open>ERROR\<close>
  where it held \<^verbatim>\<open>error\<close>, and a tagged mapping has lost its \<^verbatim>\<open>status\<close>.
\<close>

theorem from_dict_mapping_after_counterexample:
  "(\<forall>T. snd (from_dict T [lit ''status'' \<mapsto> VStr (lit ''error''), lit ''reason'' \<mapsto> VStr (lit ''no'')])
          (lit ''status'') = Some (VStr (lit ''ERROR''))) \<and>
   (\<forall>T. snd (from_dict T ((pay_request 1000 2000)(lit ''status'' \<mapsto> VStr (lit ''OK''))))
          (lit ''status'') = None)"
proof -
  have u: "upper (lit ''OK'') \<noteq> lit ''ERROR''"
    by code_simp
  show ?thesis
    using u
    by (simp add: snd_from_dict from_dict_try_def snd_from_dict_tagged upper_error Let_def
          pay_request_def dom_def)
qed

section \<open>The range validators\<close>

lemma py_lt_VInt: "py_lt (VInt x) (VInt y) = Some (x < y)"
  by (simp add: py_lt_def as_int_def)

lemma pay_fields_split:
  "model_fields LnurlPayResponse =
     [default_field (lit ''tag'') (lit ''tag'') (Literal (lit ''payRequest''))
        (VStr (lit ''payRequest'')),
      required_field (lit ''callback'') (lit ''callback'') HttpsUrl] @
     [required_field (lit ''min_sendable'') (lit ''minSendable'') MilliSatoshi,
      (required_field (lit ''max_sendable'') (lit ''maxSendable'') MilliSatoshi)
        \<lparr>class_validators := [LnurlPayResponse_max_less_than_min]\<rparr>] @
     [required_field (lit ''metadata'') (lit ''metadata'') LnurlPayMetadata]"
  by simp

lemma withdraw_fields_split:
  "model_fields LnurlWithdrawResponse =
     [default_field (lit ''tag'') (lit ''tag'') (Literal (lit ''withdrawRequest''))
        (VStr (lit ''withdrawRequest'')),
      required_field (lit ''callback'') (lit ''callback'') HttpsUrl,
      required_field (lit ''k1'') (lit ''k1'') StrType] @
     [required_field (lit ''min_withdrawable'') (lit ''minWithdrawable'') MilliSatoshi,
      (required_field (lit ''max_withdrawable'') (lit ''maxWithdrawable'') MilliSatoshi)
        \<lparr>class_validators := [LnurlWithdrawResponse_max_less_than_min]\<rparr>] @
     [default_field (lit ''default_description'') (lit ''defaultDescription'') StrType (VStr [])]"
  by simp

text \<open>The two amount fields, validated from any state of the loop.\<close>

lemma pay_amounts_fail:
  assumes "supplied d (lit ''minSendable'') (lit ''min_sendable'') = Some vmin"
    and "validate_MilliSatoshi T vmin = Inr a"
    and "supplied d (lit ''maxSendable'') (lit ''max_sendable'') = Some vmax"
    and "validate_MilliSatoshi T vmax = Inr b"
    and "b < a"
  shows "validate_model T LnurlResponseModel_Config d
           [required_field (lit ''min_sendable'') (lit ''minSendable'') MilliSatoshi,
            (required_field (lit ''max_sendable'') (lit ''maxSendable'') MilliSatoshi)
              \<lparr>class_validators := [LnurlPayResponse_max_less_than_min]\<rparr>] vals errs =
         (vals(lit ''min_sendable'' \<mapsto> VInt a),
          errs @ [(lit ''maxSendable'', lit ''`max_sendable` cannot be less than `min_sendable`.'')])"
  using assms
  by (simp add: validate_model_step required_field_def validate_field_def py_lt_VInt
        LnurlPayResponse_max_less_than_min_def del: validate_model.simps(2))

lemma pay_amounts_ok:
  assumes "supplied d (lit ''minSendable'') (lit ''min_sendable'') = Some vmin"
    and "validate_MilliSatoshi T vmin = Inr a"
    and "supplied d (lit ''maxSendable'') (lit ''max_sendable'') = Some vmax"
    and "validate_MilliSatoshi T vmax = Inr b"
    and "a \<le> b"
  shows "validate_model T LnurlResponseModel_Config d
           [required_field (lit ''min_sendable'') (lit ''minSendable'') MilliSatoshi,
            (required_field (lit ''max_sendable'') (lit ''maxSendable'') MilliSatoshi)
              \<lparr>class_validators := [LnurlPayResponse_max_less_than_min]\<rparr>] vals errs =
         (vals(lit ''min_sendable'' \<mapsto> VInt a, lit ''max_sendable'' \<mapsto> VInt b), errs)"
  using assms
  by (simp add: validate_model_step required_field_def validate_field_def py_lt_VInt
        LnurlPayResponse_max_less_than_min_def del: validate_model.simps(2))

lemma pay_amounts_inv:
  assumes "validate_model T LnurlResponseModel_Config d
           [required_field (lit ''min_sendable'') (lit ''minSendable'') MilliSatoshi,
            (required_field (lit ''max_sendable'') (lit ''maxSendable'') MilliSatoshi)
              \<lparr>class_validators := [LnurlPayResponse_max_less_than_min]\<rparr>] vals [] = (v, [])"
  shows "\<exists>a b. v (lit ''min_sendable'') = Some (VInt a) \<and>
               v (lit ''max_sendable'') = Some (VInt b) \<and> a \<le> b"
  using assms
  by (auto simp add: validate_model_step required_field_def validate_field_def py_lt_VInt
        LnurlPayResponse_max_less_than_min_def simp del: validate_model.simps(2)
        split: option.splits sum.splits if_splits bool.splits)

lemma withdraw_amounts_fail:
  assumes "supplied d (lit ''minWithdrawable'') (lit ''min_withdrawable'') = Some vmin"
    and "validate_MilliSatoshi T vmin = Inr a"
    and "supplied d (lit ''maxWithdrawable'') (lit ''max_withdrawable'') = Some vmax"
    and "validate_MilliSatoshi T vmax = Inr b"
    and "b < a"
  shows "validate_model T LnurlResponseModel_Config d
           [required_field (lit ''min_withdrawable'') (lit ''minWithdrawable'') MilliSatoshi,
            (required_field (lit ''max_withdrawable'') (lit ''maxWithdrawable'') MilliSatoshi)
              \<lparr>class_validators := [LnurlWithdrawResponse_max_less_than_min]\<rparr>] vals errs =
         (vals(lit ''min_withdrawable'' \<mapsto> VInt a),
          errs @ [(lit ''maxWithdrawable'',
                   lit ''`max_withdrawable` cannot be less than `min_withdrawable`.'')])"
  using assms
  by (simp add: validate_model_step required_field_def validate_field_def py_lt_VInt
        LnurlWithdrawResponse_max_less_than_min_def del: validate_model.simps(2))

lemma withdraw_amounts_ok:
  assumes "supplied d (lit ''minWithdrawable'') (lit ''min_withdrawable'') = Some vmin"
    and "validate_MilliSatoshi T vmin = Inr a"
    and "supplied d (lit ''maxWithdrawable'') (lit ''max_withdrawable'') = Some vmax"
    and "validate_MilliSatoshi T vmax = Inr b"
    and "a \<le> b"
  shows "validate_model T LnurlResponseModel_Config d
           [required_field (lit ''min_withdrawable'') (lit ''minWithdrawable'') MilliSatoshi,
            (required_field (lit ''max_withdrawable'') (lit ''maxWithdrawable'') MilliSatoshi)
              \<lparr>class_validators := [LnurlWithdrawResponse_max_less_than_min]\<rparr>] vals errs =
         (vals(lit ''min_withdrawable'' \<mapsto> VInt a, lit ''max_withdrawable'' \<mapsto> VInt b), errs)"
  using assms
  by (simp add: validate_model_step required_field_def validate_field_def py_lt_VInt
        LnurlWithdrawResponse_max_less_than_min_def del: validate_model.simps(2))

lemma withdraw_amounts_inv:
  assumes "validate_model T LnurlResponseModel_Config d
           [required_field (lit ''min_withdrawable'') (lit ''minWithdrawable'') MilliSatoshi,
            (required_field (lit ''max_withdrawable'') (lit ''maxWithdrawable'') MilliSatoshi)
              \<lparr>class_validators := [LnurlWithdrawResponse_max_less_than_min]\<rparr>] vals [] = (v, [])"
  shows "\<exists>a b. v (lit ''min_withdrawable'') = Some (VInt a) \<and>
               v (lit ''max_withdrawable'') = Some (VInt b) \<and> a \<le> b"
  using assms
  by (auto simp add: validate_model_step required_field_def validate_field_def py_lt_VInt
        LnurlWithdrawResponse_max_less_than_min_def simp del: validate_model.simps(2)
        split: option.splits sum.splits if_splits bool.splits)

text \<open>The whole constructor, from the three parts of the field list.\<close>

lemma construct_three_parts:
  assumes "model_fields m = fs @ gs @ hs"
  shows "BaseModel_init T m d =
     (case validate_model T LnurlResponseModel_Config d fs Map.empty [] of
        (v1, e1) \<Rightarrow>
          (case validate_model T LnurlResponseModel_Config d gs v1 e1 of
             (v2, e2) \<Rightarrow>
               (case validate_model T LnurlResponseModel_Config d hs v2 e2 of
                  (v3, e3) \<Rightarrow>
                    if e3 = [] then Inr \<lparr>cls = m, attrs = v3\<rparr> else Inl (ValidationError e3))))"
  by (simp add: BaseModel_init_def assms validate_model_append split: prod.splits)

lemma pay_construct_fails:
  assumes "supplied d (lit ''minSendable'') (lit ''min_sendable'') = Some vmin"
    and "validate_MilliSatoshi T vmin = Inr a"
    and "supplied d (lit ''maxSendable'') (lit ''max_sendable'') = Some vmax"
    and "validate_MilliSatoshi T vmax = Inr b"
    and "b < a"
  shows "\<exists>errs. BaseModel_init T LnurlPayResponse d = Inl (ValidationError errs) \<and>
           (lit ''maxSendable'', lit ''`max_sendable` cannot be less than `min_sendable`.'')
             \<in> set errs"
proof -
  let ?msg = "(lit ''maxSendable'', lit ''`max_sendable` cannot be less than `min_sendable`.'')"
  obtain v1 e1 where p1: "validate_model T LnurlResponseModel_Config d
      [default_field (lit ''tag'') (lit ''tag'') (Literal (lit ''payRequest''))
         (VStr (lit ''payRequest'')),
       required_field (lit ''callback'') (lit ''callback'') HttpsUrl] Map.empty [] = (v1, e1)"
    by fastforce
  obtain v3 e3 where p3: "validate_model T LnurlResponseModel_Config d
      [required_field (lit ''metadata'') (lit ''metadata'') LnurlPayMetadata]
      (v1(lit ''min_sendable'' \<mapsto> VInt a)) (e1 @ [?msg]) = (v3, e3)"
    by fastforce
  have "?msg \<in> set e3"
    using validate_model_keeps_errors [of ?msg "e1 @ [?msg]" T LnurlResponseModel_Config d
        "[required_field (lit ''metadata'') (lit ''metadata'') LnurlPayMetadata]"
        "v1(lit ''min_sendable'' \<mapsto> VInt a)"] p3
    by simp
  moreover from this have "e3 \<noteq> []"
    by auto
  ultimately show ?thesis
    using p1 p3 pay_amounts_fail [OF assms, of v1 e1]
    by (simp add: construct_three_parts [OF pay_fields_split])
qed

lemma pay_construct_inv:
  assumes "BaseModel_init T LnurlPayResponse d = Inr r"
  shows "\<exists>a b. attrs r (lit ''min_sendable'') = Some (VInt a) \<and>
               attrs r (lit ''max_sendable'') = Some (VInt b) \<and> a \<le> b"
proof -
  let ?fs = "[default_field (lit ''tag'') (lit ''tag'') (Literal (lit ''payRequest''))
         (VStr (lit ''payRequest'')),
       required_field (lit ''callback'') (lit ''callback'') HttpsUrl]"
  let ?gs = "[required_field (lit ''min_sendable'') (lit ''minSendable'') MilliSatoshi,
            (required_field (lit ''max_sendable'') (lit ''maxSendable'') MilliSatoshi)
              \<lparr>class_validators := [LnurlPayResponse_max_less_than_min]\<rparr>]"
  let ?hs = "[required_field (lit ''metadata'') (lit ''metadata'') LnurlPayMetadata]"
  obtain v1 e1 where p1: "validate_model T LnurlResponseModel_Config d ?fs Map.empty [] = (v1, e1)"
    by fastforce
  obtain v2 e2 where p2: "validate_model T LnurlResponseModel_Config d ?gs v1 e1 = (v2, e2)"
    by fastforce
  obtain v3 e3 where p3: "validate_model T LnurlResponseModel_Config d ?hs v2 e2 = (v3, e3)"
    by fastforce
  from assms p1 p2 p3 have e3: "e3 = []" and r: "attrs r = v3"
    by (auto simp add: construct_three_parts [OF pay_fields_split] split: if_splits)
  from p3 e3 have e2: "e2 = []"
    using validate_model_no_errors [of T LnurlResponseModel_Config d ?hs v2 e2] by simp
  from p2 e2 have e1: "e1 = []"
    using validate_model_no_errors [of T LnurlResponseModel_Config d ?gs v1 e1] by simp
  from p2 e1 e2 obtain a b where ab: "v2 (lit ''min_sendable'') = Some (VInt a)"
      "v2 (lit ''max_sendable'') = Some (VInt b)" "a \<le> b"
    using pay_amounts_inv [of T d v1 v2] by auto
  have "v3 (lit ''min_sendable'') = v2 (lit ''min_sendable'')"
    and "v3 (lit ''max_sendable'') = v2 (lit ''max_sendable'')"
    using p3 validate_model_other [of "lit ''min_sendable''" ?hs T LnurlResponseModel_Config d v2 e2]
      validate_model_other [of "lit ''max_sendable''" ?hs T LnurlResponseModel_Config d v2 e2]
    by (simp_all add: required_field_def)
  with ab r show ?thesis
    by auto
qed

lemma withdraw_construct_fails:
  assumes "supplied d (lit ''minWithdrawable'') (lit ''min_withdrawable'') = Some vmin"
    and "validate_MilliSatoshi T vmin = Inr a"
    and "supplied d (lit ''maxWithdrawable'') (lit ''max_withdrawable'') = Some vmax"
    and "validate_MilliSatoshi T vmax = Inr b"
    and "b < a"
  shows "\<exists>errs. BaseModel_init T LnurlWithdrawResponse d = Inl (ValidationError errs) \<and>
           (lit ''maxWithdrawable'', lit ''`max_withdrawable` cannot be less than `min_withdrawable`.'')
             \<in> set errs"
proof -
  let ?msg = "(lit ''maxWithdrawable'', lit ''`max_withdrawable` cannot be less than `min_withdrawable`.'')"
  obtain v1 e1 where p1: "validate_model T LnurlResponseModel_Config d
      [default_field (lit ''tag'') (lit ''tag'') (Literal (lit ''withdrawRequest''))
         (VStr (lit ''withdrawRequest'')),
       required_field (lit ''callback'') (lit ''callback'') HttpsUrl,
       required_field (lit ''k1'') (lit ''k1'') StrType] Map.empty [] = (v1, e1)"
    by fastforce
  obtain v3 e3 where p3: "validate_model T LnurlResponseModel_Config d
      [default_field (lit ''default_description'') (lit ''defaultDescription'') StrType
         (VStr [])]
      (v1(lit ''min_withdrawable'' \<mapsto> VInt a)) (e1 @ [?msg]) = (v3, e3)"
    by fastforce
  have "?msg \<in> set e3"
    using validate_model_keeps_errors [of ?msg "e1 @ [?msg]" T LnurlResponseModel_Config d
        "[default_field (lit ''default_description'') (lit ''defaultDescription'') StrType
         (VStr [])]"
        "v1(lit ''min_withdrawable'' \<mapsto> VInt a)"] p3
    by simp
  moreover from this have "e3 \<noteq> []"
    by auto
  ultimately show ?thesis
    using p1 p3 withdraw_amounts_fail [OF assms, of v1 e1]
    by (simp add: construct_three_parts [OF withdraw_fields_split])
qed

lemma withdraw_construct_inv:
  assumes "BaseModel_init T LnurlWithdrawResponse d = Inr r"
  shows "\<exists>a b. attrs r (lit ''min_withdrawable'') = Some (VInt a) \<and>
               attrs r (lit ''max_withdrawable'') = Some (VInt b) \<and> a \<le> b"
proof -
  let ?fs = "[default_field (lit ''tag'') (lit ''tag'') (Literal (lit ''withdrawRequest''))
         (VStr (lit ''withdrawRequest'')),
       required_field (lit ''callback'') (lit ''callback'') HttpsUrl,
       required_field (lit ''k1'') (lit ''k1'') StrType]"
  let ?gs = "[required_field (lit ''min_withdrawable'') (lit ''minWithdrawable'') MilliSatoshi,
            (required_field (lit ''max_withdrawable'') (lit ''maxWithdrawable'') MilliSatoshi)
              \<lparr>class_validators := [LnurlWithdrawResponse_max_less_than_min]\<rparr>]"
  let ?hs = "[default_field (lit ''default_description'') (lit ''defaultDescription'') StrType
         (VStr [])]"
  obtain v1 e1 where p1: "validate_model T LnurlResponseModel_Config d ?fs Map.empty [] = (v1, e1)"
    by fastforce
  obtain v2 e2 where p2: "validate_model T LnurlResponseModel_Config d ?gs v1 e1 = (v2, e2)"
    by fastforce
  obtain v3 e3 where p3: "validate_model T LnurlResponseModel_Config d ?hs v2 e2 = (v3, e3)"
    by fastforce
  from assms p1 p2 p3 have e3: "e3 = []" and r: "attrs r = v3"
    by (auto simp add: construct_three_parts [OF withdraw_fields_split] split: if_splits)
  from p3 e3 have e2: "e2 = []"
    using validate_model_no_errors [of T LnurlResponseModel_Config d ?hs v2 e2] by simp
  from p2 e2 have e1: "e1 = []"
    using validate_model_no_errors [of T LnurlResponseModel_Config d ?gs v1 e1] by simp
  from p2 e1 e2 obtain a b where ab: "v2 (lit ''min_withdrawable'') = Some (VInt a)"
      "v2 (lit ''max_withdrawable'') = Some (VInt b)" "a \<le> b"
    using withdraw_amounts_inv [of T d v1 v2] by auto
  have "v3 (lit ''min_withdrawable'') = v2 (lit ''min_withdrawable'')"
    and "v3 (lit ''max_withdrawable'') = v2 (lit ''max_withdrawable'')"
    using p3 validate_model_other [of "lit ''min_withdrawable''" ?hs T LnurlResponseModel_Config d v2 e2]
      validate_model_other [of "lit ''max_withdrawable''" ?hs T LnurlResponseModel_Config d v2 e2]
    by (simp_all add: default_field_def)
  with ab r show ?thesis
    by auto
qed

lemma pay_construct_ok:
  assumes "d (lit ''tag'') = None \<or> d (lit ''tag'') = Some (VStr (lit ''payRequest''))"
    and "d (lit ''callback'') = Some c" and "validate_HttpsUrl T c = Inr c1"
    and "supplied d (lit ''minSendable'') (lit ''min_sendable'') = Some vmin"
    and "validate_MilliSatoshi T vmin = Inr a"
    and "supplied d (lit ''maxSendable'') (lit ''max_sendable'') = Some vmax"
    and "validate_MilliSatoshi T vmax = Inr b"
    and "a \<le> b"
    and "d (lit ''metadata'') = Some m" and "validate_LnurlPayMetadata T m = Inr m1"
  shows "BaseModel_init T LnurlPayResponse d =
           Inr \<lparr>cls = LnurlPayResponse,
                attrs = [lit ''tag'' \<mapsto> VStr (lit ''payRequest''), lit ''callback'' \<mapsto> c1,
                         lit ''min_sendable'' \<mapsto> VInt a, lit ''max_sendable'' \<mapsto> VInt b,
                         lit ''metadata'' \<mapsto> m1]\<rparr>"
proof -
  have "validate_model T LnurlResponseModel_Config d
      [default_field (lit ''tag'') (lit ''tag'') (Literal (lit ''payRequest''))
         (VStr (lit ''payRequest'')),
       required_field (lit ''callback'') (lit ''callback'') HttpsUrl] Map.empty [] =
      ([lit ''tag'' \<mapsto> VStr (lit ''payRequest''), lit ''callback'' \<mapsto> c1], [])"
    using assms(1-3)
    by (auto simp add: validate_model_step required_field_def default_field_def validate_field_def
          supplied_def simp del: validate_model.simps(2))
  moreover have "validate_model T LnurlResponseModel_Config d
      [required_field (lit ''metadata'') (lit ''metadata'') LnurlPayMetadata] vals [] =
      (vals(lit ''metadata'' \<mapsto> m1), [])" for vals
    using assms(9,10)
    by (simp add: validate_model_step required_field_def validate_field_def
          supplied_def del: validate_model.simps(2))
  ultimately show ?thesis
    using pay_amounts_ok [OF assms(4-8)]
    by (simp add: construct_three_parts [OF pay_fields_split])
qed

lemma withdraw_construct_ok:
  assumes "d (lit ''tag'') = None \<or> d (lit ''tag'') = Some (VStr (lit ''withdrawRequest''))"
    and "d (lit ''callback'') = Some c" and "validate_HttpsUrl T c = Inr c1"
    and "d (lit ''k1'') = Some k" and "str_validator k = Inr k1"
    and "supplied d (lit ''minWithdrawable'') (lit ''min_withdrawable'') = Some vmin"
    and "validate_MilliSatoshi T vmin = Inr a"
    and "supplied d (lit ''maxWithdrawable'') (lit ''max_withdrawable'') = Some vmax"
    and "validate_MilliSatoshi T vmax = Inr b"
    and "a \<le> b"
    and "case supplied d (lit ''defaultDescription'') (lit ''default_description'') of
           None \<Rightarrow> dd = VStr []
         | Some v \<Rightarrow> str_validator v = Inr dd"
  shows "BaseModel_init T LnurlWithdrawResponse d =
           Inr \<lparr>cls = LnurlWithdrawResponse,
                attrs = [lit ''tag'' \<mapsto> VStr (lit ''withdrawRequest''), lit ''callback'' \<mapsto> c1,
                         lit ''k1'' \<mapsto> k1,
                         lit ''min_withdrawable'' \<mapsto> VInt a, lit ''max_withdrawable'' \<mapsto> VInt b,
                         lit ''default_description'' \<mapsto> dd]\<rparr>"
proof -
  have "validate_model T LnurlResponseModel_Config d
      [default_field (lit ''tag'') (lit ''tag'') (Literal (lit ''withdrawRequest''))
         (VStr (lit ''withdrawRequest'')),
       required_field (lit ''callback'') (lit ''callback'') HttpsUrl,
       required_field (lit ''k1'') (lit ''k1'') StrType] Map.empty [] =
      ([lit ''tag'' \<mapsto> VStr (lit ''withdrawRequest''), lit ''callback'' \<mapsto> c1,
        lit ''k1'' \<mapsto> k1], [])"
    using assms(1-5)
    by (auto simp add: validate_model_step required_field_def default_field_def validate_field_def
          supplied_def simp del: validate_model.simps(2))
  moreover have "validate_model T LnurlResponseModel_Config d
      [default_field (lit ''default_description'') (lit ''defaultDescription'') StrType
         (VStr [])] vals [] =
      (vals(lit ''default_description'' \<mapsto> dd), [])" for vals
    using assms(11)
    by (simp add: validate_model_step default_field_def validate_field_def
          del: validate_model.simps(2) split: option.splits)
  ultimately show ?thesis
    using withdraw_amounts_ok [OF assms(6-10)]
    by (simp add: construct_three_parts [OF withdraw_fields_split])
qed

text \<open>
  C3. Take a mapping whose two bounds are valid amounts. With the maximum below the
  minimum, \<^verbatim>\<open>LnurlPayResponse(**d)\<close> (and \<^verbatim>\<open>LnurlWithdrawResponse(**d)\<close>) fails, and
  when the call reaches the validation of the fields (no key has the name of the first
  parameter of the constructor) it fails with a \<^verbatim>\<open>ValidationError\<close> whose entry for the
  maximum carries the message of the validator, which names both fields. With the
  maximum equal to the minimum (or above it) and the other fields valid, a description
  of the withdraw request included when there is one, construction succeeds. And every
  instance that construction returns holds integer bounds with the maximum at least
  the minimum.
\<close>

theorem max_less_than_min_range:
  "(\<forall>vmin a vmax b.
      supplied d (lit ''minSendable'') (lit ''min_sendable'') = Some vmin \<and>
      validate_MilliSatoshi T vmin = Inr a \<and>
      supplied d (lit ''maxSendable'') (lit ''max_sendable'') = Some vmax \<and>
      validate_MilliSatoshi T vmax = Inr b \<longrightarrow>
        (b < a \<longrightarrow>
           (\<exists>e. construct T LnurlPayResponse d = Inl e) \<and>
           (lit ''__pydantic_self__'' \<notin> dom d \<longrightarrow>
              (\<exists>errs. construct T LnurlPayResponse d = Inl (ValidationError errs) \<and>
                 (lit ''maxSendable'', lit ''`max_sendable` cannot be less than `min_sendable`.'')
                   \<in> set errs))) \<and>
        (a \<le> b \<and> lit ''__pydantic_self__'' \<notin> dom d \<and>
         (d (lit ''tag'') = None \<or> d (lit ''tag'') = Some (VStr (lit ''payRequest''))) \<and>
         (\<exists>c c1. d (lit ''callback'') = Some c \<and> validate_HttpsUrl T c = Inr c1) \<and>
         (\<exists>m m1. d (lit ''metadata'') = Some m \<and> validate_LnurlPayMetadata T m = Inr m1) \<longrightarrow>
           (\<exists>r. construct T LnurlPayResponse d = Inr r \<and>
              attrs r (lit ''min_sendable'') = Some (VInt a) \<and>
              attrs r (lit ''max_sendable'') = Some (VInt b)))) \<and>
   (\<forall>r. construct T LnurlPayResponse d = Inr r \<longrightarrow>
      (\<exists>a b. attrs r (lit ''min_sendable'') = Some (VInt a) \<and>
             attrs r (lit ''max_sendable'') = Some (VInt b) \<and> a \<le> b)) \<and>
   (\<forall>vmin a vmax b.
      supplied d (lit ''minWithdrawable'') (lit ''min_withdrawable'') = Some vmin \<and>
      validate_MilliSatoshi T vmin = Inr a \<and>
      supplied d (lit ''maxWithdrawable'') (lit ''max_withdrawable'') = Some vmax \<and>
      validate_MilliSatoshi T vmax = Inr b \<longrightarrow>
        (b < a \<longrightarrow>
           (\<exists>e. construct T LnurlWithdrawResponse d = Inl e) \<and>
           (lit ''__pydantic_self__'' \<notin> dom d \<longrightarrow>
              (\<exists>errs. construct T LnurlWithdrawResponse d = Inl (ValidationError errs) \<and>
                 (lit ''maxWithdrawable'',
                  lit ''`max_withdrawable` cannot be less than `min_withdrawable`.'') \<in> set errs))) \<and>
        (a \<le> b \<and> lit ''__pydantic_self__'' \<notin> dom d \<and>
         (d (lit ''tag'') = None \<or> d (lit ''tag'') = Some (VStr (lit ''withdrawRequest''))) \<and>
         (\<exists>c c1. d (lit ''callback'') = Some c \<and> validate_HttpsUrl T c = Inr c1) \<and>
         (\<exists>k k1. d (lit ''k1'') = Some k \<and> str_validator k = Inr k1) \<and>
         (supplied d (lit ''defaultDescription'') (lit ''default_description'') = None \<or>
          (\<exists>v v1. supplied d (lit ''defaultDescription'') (lit ''default_description'') = Some v \<and>
             str_validator v = Inr v1)) \<longrightarrow>
           (\<exists>r. construct T LnurlWithdrawResponse d = Inr r \<and>
              attrs r (lit ''min_withdrawable'') = Some (VInt a) \<and>
              attrs r (lit ''max_withdrawable'') = Some (VInt b)))) \<and>
   (\<forall>r. construct T LnurlWithdrawResponse d = Inr r \<longrightarrow>
      (\<exists>a b. attrs r (lit ''min_withdrawable'') = Some (VInt a) \<and>
             attrs r (lit ''max_withdrawable'') = Some (VInt b) \<and> a \<le> b))"
proof (intro conjI allI impI)
  fix vmin a vmax b
  assume h: "supplied d (lit ''minSendable'') (lit ''min_sendable'') = Some vmin \<and>
      validate_MilliSatoshi T vmin = Inr a \<and>
      supplied d (lit ''maxSendable'') (lit ''max_sendable'') = Some vmax \<and>
      validate_MilliSatoshi T vmax = Inr b"
  {
    assume lt: "b < a"
    from h lt have f: "\<exists>errs. BaseModel_init T LnurlPayResponse d = Inl (ValidationError errs) \<and>
              (lit ''maxSendable'', lit ''`max_sendable` cannot be less than `min_sendable`.'')
                \<in> set errs"
      using pay_construct_fails [of d vmin T a vmax b] by simp
    then show "\<exists>e. construct T LnurlPayResponse d = Inl e"
      by (auto simp add: construct_def)
    {
      assume "lit ''__pydantic_self__'' \<notin> dom d"
      with f show "\<exists>errs. construct T LnurlPayResponse d = Inl (ValidationError errs) \<and>
              (lit ''maxSendable'', lit ''`max_sendable` cannot be less than `min_sendable`.'')
                \<in> set errs"
        by (simp add: construct_init)
    }
  }
  {
    assume ok: "a \<le> b \<and> lit ''__pydantic_self__'' \<notin> dom d \<and>
         (d (lit ''tag'') = None \<or> d (lit ''tag'') = Some (VStr (lit ''payRequest''))) \<and>
         (\<exists>c c1. d (lit ''callback'') = Some c \<and> validate_HttpsUrl T c = Inr c1) \<and>
         (\<exists>m m1. d (lit ''metadata'') = Some m \<and> validate_LnurlPayMetadata T m = Inr m1)"
    then obtain c c1 m m1 where "d (lit ''callback'') = Some c" "validate_HttpsUrl T c = Inr c1"
        "d (lit ''metadata'') = Some m" "validate_LnurlPayMetadata T m = Inr m1"
      by blast
    with h ok show "\<exists>r. construct T LnurlPayResponse d = Inr r \<and>
              attrs r (lit ''min_sendable'') = Some (VInt a) \<and>
              attrs r (lit ''max_sendable'') = Some (VInt b)"
      using pay_construct_ok [of d c T c1 vmin a vmax b m m1] by (simp add: construct_init)
  }
next
  fix r
  assume "construct T LnurlPayResponse d = Inr r"
  then have "BaseModel_init T LnurlPayResponse d = Inr r"
    by (simp add: construct_Inr)
  then show "\<exists>a b. attrs r (lit ''min_sendable'') = Some (VInt a) \<and>
             attrs r (lit ''max_sendable'') = Some (VInt b) \<and> a \<le> b"
    by (rule pay_construct_inv)
next
  fix vmin a vmax b
  assume h: "supplied d (lit ''minWithdrawable'') (lit ''min_withdrawable'') = Some vmin \<and>
      validate_MilliSatoshi T vmin = Inr a \<and>
      supplied d (lit ''maxWithdrawable'') (lit ''max_withdrawable'') = Some vmax \<and>
      validate_MilliSatoshi T vmax = Inr b"
  {
    assume lt: "b < a"
    from h lt have f: "\<exists>errs. BaseModel_init T LnurlWithdrawResponse d = Inl (ValidationError errs) \<and>
              (lit ''maxWithdrawable'',
               lit ''`max_withdrawable` cannot be less than `min_withdrawable`.'') \<in> set errs"
      using withdraw_construct_fails [of d vmin T a vmax b] by simp
    then show "\<exists>e. construct T LnurlWithdrawResponse d = Inl e"
      by (auto simp add: construct_def)
    {
      assume "lit ''__pydantic_self__'' \<notin> dom d"
      with f show "\<exists>errs. construct T LnurlWithdrawResponse d = Inl (ValidationError errs) \<and>
              (lit ''maxWithdrawable'',
               lit ''`max_withdrawable` cannot be less than `min_withdrawable`.'') \<in> set errs"
        by (simp add: construct_init)
    }
  }
  {
    assume ok: "a \<le> b \<and> lit ''__pydantic_self__'' \<notin> dom d \<and>
         (d (lit ''tag'') = None \<or> d (lit ''tag'') = Some (VStr (lit ''withdrawRequest''))) \<and>
         (\<exists>c c1. d (lit ''callback'') = Some c \<and> validate_HttpsUrl T c = Inr c1) \<and>
         (\<exists>k k1. d (lit ''k1'') = Some k \<and> str_validator k = Inr k1) \<and>
         (supplied d (lit ''defaultDescription'') (lit ''default_description'') = None \<or>
          (\<exists>v v1. supplied d (lit ''defaultDescription'') (lit ''default_description'') = Some v \<and>
             str_validator v = Inr v1))"
    then obtain c c1 k k1 where ck: "d (lit ''callback'') = Some c" "validate_HttpsUrl T c = Inr c1"
        "d (lit ''k1'') = Some k" "str_validator k = Inr k1"
      by blast
    from ok obtain dd where dd:
      "case supplied d (lit ''defaultDescription'') (lit ''default_description'') of
         None \<Rightarrow> dd = VStr []
       | Some v \<Rightarrow> str_validator v = Inr dd"
      by (cases "supplied d (lit ''defaultDescription'') (lit ''default_description'')") auto
    from h ok ck show "\<exists>r. construct T LnurlWithdrawResponse d = Inr r \<and>
              attrs r (lit ''min_withdrawable'') = Some (VInt a) \<and>
              attrs r (lit ''max_withdrawable'') = Some (VInt b)"
      using withdraw_construct_ok [of d c T c1 k k1 vmin a vmax b dd, OF _ _ _ _ _ _ _ _ _ _ dd]
      by (simp add: construct_init)
  }
next
  fix r
  assume "construct T LnurlWithdrawResponse d = Inr r"
  then have "BaseModel_init T LnurlWithdrawResponse d = Inr r"
    by (simp add: construct_Inr)
  then show "\<exists>a b. attrs r (lit ''min_withdrawable'') = Some (VInt a) \<and>
             attrs r (lit ''max_withdrawable'') = Some (VInt b) \<and> a \<le> b"
    by (rule withdraw_construct_inv)
qed

lemma pay_request_keys: "lit ''__pydantic_self__'' \<notin> dom (pay_request lo hi)"
  by (simp add: pay_request_def)

lemma withdraw_request_keys: "lit ''__pydantic_self__'' \<notin> dom (withdraw_request lo hi)"
  by (simp add: withdraw_request_def)

lemma construct_pay_request:
  "0 \<le> lo \<Longrightarrow> lo \<le> hi \<Longrightarrow>
   construct sample_types LnurlPayResponse (pay_request lo hi) = Inr (pay_response lo hi)"
  using pay_construct_ok [of "pay_request lo hi" "VStr (lit ''https://x.com/cb'')" sample_types
      "VStr (lit ''https://x.com/cb'')" "VInt lo" lo "VInt hi" hi
      "VStr sample_metadata" "VStr sample_metadata"]
  by (simp add: construct_init pay_request_keys)
     (simp add: pay_request_def pay_response_def sample_simps supplied_def)

lemma construct_withdraw_request:
  "0 \<le> lo \<Longrightarrow> lo \<le> hi \<Longrightarrow>
   construct sample_types LnurlWithdrawResponse (withdraw_request lo hi) =
     Inr (withdraw_response lo hi)"
  using withdraw_construct_ok [of "withdraw_request lo hi" "VStr (lit ''https://x.com/cb'')"
      sample_types "VStr (lit ''https://x.com/cb'')" "VStr (lit ''c3RyaW5n'')"
      "VStr (lit ''c3RyaW5n'')" "VInt lo" lo "VInt hi" hi "VStr []"]
  by (simp add: construct_init withdraw_request_keys)
     (simp add: withdraw_request_def withdraw_response_def sample_simps supplied_def
        str_validator_def)

theorem max_less_than_min_range_witness:
  "(\<exists>errs. construct sample_types LnurlPayResponse (pay_request 2000 1000) =
             Inl (ValidationError errs) \<and>
           (lit ''maxSendable'', lit ''`max_sendable` cannot be less than `min_sendable`.'')
             \<in> set errs) \<and>
   (\<exists>r. construct sample_types LnurlPayResponse (pay_request 1000 1000) = Inr r \<and>
        attrs r (lit ''min_sendable'') = Some (VInt 1000) \<and>
        attrs r (lit ''max_sendable'') = Some (VInt 1000)) \<and>
   (\<exists>errs. construct sample_types LnurlWithdrawResponse (withdraw_request 2000 1000) =
             Inl (ValidationError errs) \<and>
           (lit ''maxWithdrawable'',
            lit ''`max_withdrawable` cannot be less than `min_withdrawable`.'') \<in> set errs) \<and>
   (\<exists>r. construct sample_types LnurlWithdrawResponse
          ((withdraw_request 1000 1000)(lit ''defaultDescription'' \<mapsto> VStr (lit ''refund''))) = Inr r \<and>
        attrs r (lit ''min_withdrawable'') = Some (VInt 1000) \<and>
        attrs r (lit ''max_withdrawable'') = Some (VInt 1000))"
proof (intro conjI)
  show "\<exists>errs. construct sample_types LnurlPayResponse (pay_request 2000 1000) =
             Inl (ValidationError errs) \<and>
           (lit ''maxSendable'', lit ''`max_sendable` cannot be less than `min_sendable`.'')
             \<in> set errs"
    using max_less_than_min_range [of "pay_request 2000 1000" sample_types]
    by (simp add: pay_request_def sample_simps supplied_def)
  show "\<exists>r. construct sample_types LnurlPayResponse (pay_request 1000 1000) = Inr r \<and>
        attrs r (lit ''min_sendable'') = Some (VInt 1000) \<and>
        attrs r (lit ''max_sendable'') = Some (VInt 1000)"
    using max_less_than_min_range [of "pay_request 1000 1000" sample_types]
    by (simp add: pay_request_def sample_simps supplied_def)
  show "\<exists>errs. construct sample_types LnurlWithdrawResponse (withdraw_request 2000 1000) =
             Inl (ValidationError errs) \<and>
           (lit ''maxWithdrawable'',
            lit ''`max_withdrawable` cannot be less than `min_withdrawable`.'') \<in> set errs"
    using max_less_than_min_range [of "withdraw_request 2000 1000" sample_types]
    by (simp add: withdraw_request_def sample_simps supplied_def)
  show "\<exists>r. construct sample_types LnurlWithdrawResponse
          ((withdraw_request 1000 1000)(lit ''defaultDescription'' \<mapsto> VStr (lit ''refund''))) = Inr r \<and>
        attrs r (lit ''min_withdrawable'') = Some (VInt 1000) \<and>
        attrs r (lit ''max_withdrawable'') = Some (VInt 1000)"
    using max_less_than_min_range
      [of "(withdraw_request 1000 1000)(lit ''defaultDescription'' \<mapsto> VStr (lit ''refund''))"
          sample_types]
    by (simp add: withdraw_request_def sample_simps supplied_def str_validator_def)
qed

section \<open>Assignment to an instance\<close>

text \<open>
  C8, as the code has it. Validation runs in the constructor and nowhere else. An
  instance that the constructor returns is of the class asked for and holds a value for
  each declared field, and for nothing else. For a field that the mapping supplies,
  under its alias or its name, that value is what the validators of the field return
  for the supplied one, given the fields declared before it as the instance holds
  them; a field that the mapping leaves out is an optional one and holds its default.
  So no instance leaves the constructor with a field that failed. The instance is not
  frozen: assigning any value to a declared field afterwards succeeds and stores the
  value as it is.
\<close>

theorem setattr_not_validated:
  "(\<forall>r. construct T m d = Inr r \<longrightarrow>
      cls r = m \<and> dom (attrs r) = field_name ` set (model_fields m) \<and>
      (\<forall>pre f post. model_fields m = pre @ f # post \<longrightarrow>
         (case supplied d (field_alias f) (field_name f) of
            None \<Rightarrow> \<not> required f \<and> attrs r (field_name f) = Some (default f)
          | Some v \<Rightarrow>
              (\<exists>w. validate_field T f v (attrs r |` (field_name ` set pre)) = Inr w \<and>
                   attrs r (field_name f) = Some w)))) \<and>
   (n \<in> field_name ` set (model_fields (cls self)) \<longrightarrow>
      setattr T LnurlResponseModel_Config self n v = Inr (self\<lparr>attrs := (attrs self)(n \<mapsto> v)\<rparr>))"
proof (intro conjI allI impI)
  fix r
  assume c: "construct T m d = Inr r"
  then show "cls r = m"
    by (rule cls_construct)
  from c show "dom (attrs r) = field_name ` set (model_fields m)"
    by (rule dom_construct)
  fix pre f post
  assume "model_fields m = pre @ f # post"
  with c show "case supplied d (field_alias f) (field_name f) of
            None \<Rightarrow> \<not> required f \<and> attrs r (field_name f) = Some (default f)
          | Some v \<Rightarrow>
              (\<exists>w. validate_field T f v (attrs r |` (field_name ` set pre)) = Inr w \<and>
                   attrs r (field_name f) = Some w)"
    by (rule construct_sound)
next
  assume "n \<in> field_name ` set (model_fields (cls self))"
  then show "setattr T LnurlResponseModel_Config self n v =
      Inr (self\<lparr>attrs := (attrs self)(n \<mapsto> v)\<rparr>)"
    by (simp add: setattr_def LnurlResponseModel_Config_def)
qed

theorem setattr_not_validated_witness:
  "construct sample_types LnurlPayResponse (pay_request 1000 2000) = Inr (pay_response 1000 2000) \<and>
   validate_field sample_types
     ((required_field (lit ''max_sendable'') (lit ''maxSendable'') MilliSatoshi)
        \<lparr>class_validators := [LnurlPayResponse_max_less_than_min]\<rparr>)
     (VInt 2000)
     (attrs (pay_response 1000 2000) |` {lit ''tag'', lit ''callback'', lit ''min_sendable''}) =
     Inr (VInt 2000) \<and>
   setattr sample_types LnurlResponseModel_Config (pay_response 1000 2000) (lit ''callback'') VNone =
     Inr ((pay_response 1000 2000)
            \<lparr>attrs := (attrs (pay_response 1000 2000))(lit ''callback'' \<mapsto> VNone)\<rparr>)"
proof -
  let ?pre = "[default_field (lit ''tag'') (lit ''tag'') (Literal (lit ''payRequest''))
                 (VStr (lit ''payRequest'')),
               required_field (lit ''callback'') (lit ''callback'') HttpsUrl,
               required_field (lit ''min_sendable'') (lit ''minSendable'') MilliSatoshi]"
  let ?f = "(required_field (lit ''max_sendable'') (lit ''maxSendable'') MilliSatoshi)
              \<lparr>class_validators := [LnurlPayResponse_max_less_than_min]\<rparr>"
  let ?post = "[required_field (lit ''metadata'') (lit ''metadata'') LnurlPayMetadata]"
  note inst = setattr_not_validated
    [of sample_types LnurlPayResponse "pay_request 1000 2000" "lit ''callback''"
        "pay_response 1000 2000" VNone]
  have c: "construct sample_types LnurlPayResponse (pay_request 1000 2000) =
      Inr (pay_response 1000 2000)"
    by (simp add: construct_pay_request)
  have m: "model_fields LnurlPayResponse = ?pre @ ?f # ?post"
    by simp
  from inst c m have "case supplied (pay_request 1000 2000) (field_alias ?f) (field_name ?f) of
      None \<Rightarrow> \<not> required ?f \<and>
        attrs (pay_response 1000 2000) (field_name ?f) = Some (default ?f)
    | Some v \<Rightarrow>
        (\<exists>w. validate_field sample_types ?f v
               (attrs (pay_response 1000 2000) |` (field_name ` set ?pre)) = Inr w \<and>
             attrs (pay_response 1000 2000) (field_name ?f) = Some w)"
    by blast
  moreover have "supplied (pay_request 1000 2000) (field_alias ?f) (field_name ?f) =
      Some (VInt 2000)"
    by (simp add: supplied_def pay_request_def required_field_def)
  moreover have "attrs (pay_response 1000 2000) (field_name ?f) = Some (VInt 2000)"
    by (simp add: pay_response_def required_field_def)
  moreover have "field_name ` set ?pre = {lit ''tag'', lit ''callback'', lit ''min_sendable''}"
    by (simp add: required_field_def default_field_def)
  ultimately have v: "validate_field sample_types ?f (VInt 2000)
      (attrs (pay_response 1000 2000) |` {lit ''tag'', lit ''callback'', lit ''min_sendable''}) =
      Inr (VInt 2000)"
    by auto
  have s: "setattr sample_types LnurlResponseModel_Config (pay_response 1000 2000)
      (lit ''callback'') VNone =
     Inr ((pay_response 1000 2000)
            \<lparr>attrs := (attrs (pay_response 1000 2000))(lit ''callback'' \<mapsto> VNone)\<rparr>)"
    using inst by (simp add: pay_response_def required_field_def default_field_def)
  from c v s show ?thesis
    by blast
qed

text \<open>
  The claim C8 as stated fails: the maximum of a constructed pay response can be
  reassigned, to a value below its minimum, and the instance then breaks the invariant
  that construction had checked.
\<close>

theorem setattr_not_validated_counterexample:
  "construct sample_types LnurlPayResponse (pay_request 1000 2000) = Inr (pay_response 1000 2000) \<and>
   setattr sample_types LnurlResponseModel_Config (pay_response 1000 2000)
     (lit ''max_sendable'') (VInt 1) = Inr (pay_response 1000 1)"
proof
  show "construct sample_types LnurlPayResponse (pay_request 1000 2000) =
          Inr (pay_response 1000 2000)"
    by (simp add: construct_pay_request)
  show "setattr sample_types LnurlResponseModel_Config (pay_response 1000 2000)
     (lit ''max_sendable'') (VInt 1) = Inr (pay_response 1000 1)"
    by (simp add: setattr_def LnurlResponseModel_Config_def pay_response_def required_field_def
          default_field_def fun_upd_twist)
qed

section \<open>Satoshi amounts of large bounds\<close>

text \<open>
  C5. The two examples of the specification hold: a minimum of 1500 gives 2 and a
  maximum of 2999 gives 2. The properties divide as floats, though, so the quotient is
  rounded to a float before \<^verbatim>\<open>math.floor\<close> and \<^verbatim>\<open>math.ceil\<close> see it, and for a
  large amount the rounding reaches the next integer: a maximum of 17592186044416999
  (just above \<open>2 ^ 44 * 1000\<close>) gives 17592186044417 where the floor is
  17592186044416, and a minimum of 17592186044416001 gives 17592186044416 where the
  ceiling is 17592186044417. Both are valid bounds of one response.
\<close>

theorem sats_float_rounding:
  "construct sample_types LnurlPayResponse (pay_request 17592186044416001 17592186044416999) =
     Inr (pay_response 17592186044416001 17592186044416999) \<and>
   LnurlPayResponse_max_sats (pay_response 17592186044416001 17592186044416999) =
     Inr 17592186044417 \<and>
   (17592186044416999 :: int) div 1000 = 17592186044416 \<and>
   LnurlPayResponse_min_sats (pay_response 17592186044416001 17592186044416999) =
     Inr 17592186044416 \<and>
   - ((- 17592186044416001 :: int) div 1000) = 17592186044417 \<and>
   construct sample_types LnurlWithdrawResponse
       (withdraw_request 17592186044416001 17592186044416999) =
     Inr (withdraw_response 17592186044416001 17592186044416999) \<and>
   LnurlWithdrawResponse_max_sats (withdraw_response 17592186044416001 17592186044416999) =
     Inr 17592186044417 \<and>
   LnurlWithdrawResponse_min_sats (withdraw_response 17592186044416001 17592186044416999) =
     Inr 17592186044416 \<and>
   LnurlPayResponse_min_sats (pay_response 1500 2999) = Inr 2 \<and>
   LnurlPayResponse_max_sats (pay_response 1500 2999) = Inr 2"
proof (intro conjI)
  show "construct sample_types LnurlPayResponse (pay_request 17592186044416001 17592186044416999) =
     Inr (pay_response 17592186044416001 17592186044416999)"
    by (simp add: construct_pay_request)
  show "LnurlPayResponse_max_sats (pay_response 17592186044416001 17592186044416999) =
     Inr 17592186044417"
    by code_simp
  show "(17592186044416999 :: int) div 1000 = 17592186044416"
    by simp
  show "LnurlPayResponse_min_sats (pay_response 17592186044416001 17592186044416999) =
     Inr 17592186044416"
    by code_simp
  show "- ((- 17592186044416001 :: int) div 1000) = 17592186044417"
    by simp
  show "construct sample_types LnurlWithdrawResponse
       (withdraw_request 17592186044416001 17592186044416999) =
     Inr (withdraw_response 17592186044416001 17592186044416999)"
    by (simp add: construct_withdraw_request)
  show "LnurlWithdrawResponse_max_sats (withdraw_response 17592186044416001 17592186044416999) =
     Inr 17592186044417"
    by code_simp
  show "LnurlWithdrawResponse_min_sats (withdraw_response 17592186044416001 17592186044416999) =
     Inr 17592186044416"
    by code_simp
  show "LnurlPayResponse_min_sats (pay_response 1500 2999) = Inr 2"
    by code_simp
  show "LnurlPayResponse_max_sats (pay_response 1500 2999) = Inr 2"
    by code_simp
qed

section \<open>The checksum of bech32\<close>

lemma and_1_neq_0: "(x AND 1 \<noteq> 0) = bit (x::int) 0"
  by (simp add: and_one_eq bit_0 mod_2_eq_odd)

lemma mask25: "(0x1ffffff :: int) = mask 25"
  by (simp add: mask_eq_exp_minus_1)

lemma upt5: "[0..<5] = [0, 1, 2, 3, 4]"
  by (simp add: upt_rec)

lemma gen_if_alt:
  "(if drop_bit i (drop_bit 25 c) AND 1 \<noteq> 0 then generator ! i else 0) = gen_if c i"
  by (simp add: gen_if_def and_1_neq_0 bit_drop_bit_eq add.commute)

lemma polymod_step_eq: "polymod_step c v = polymod_shift c XOR v"
proof -
  have "polymod_step c v =
      push_bit 5 (take_bit 25 c) XOR v XOR gen_if c 0 XOR gen_if c 1 XOR gen_if c 2
        XOR gen_if c 3 XOR gen_if c 4"
    unfolding polymod_step_def Let_def upt5 mask25 foldl.simps gen_if_alt
    by (simp only: take_bit_eq_mask xor.assoc)
  then show ?thesis
    by (simp add: polymod_shift_def ac_simps)
qed

lemma gen_if_xor: "gen_if (a XOR b) i = gen_if a i XOR gen_if b i"
  by (simp add: gen_if_def bit_xor_iff)

lemma polymod_shift_xor: "polymod_shift (a XOR b) = polymod_shift a XOR polymod_shift b"
  by (simp add: polymod_shift_def gen_if_xor take_bit_xor push_bit_xor ac_simps)

lemma polymod_shift_small:
  assumes "0 \<le> v" "v < 2 ^ 25"
  shows "polymod_shift v = push_bit 5 v"
proof -
  have tb: "take_bit 25 v = v"
    using assms by (simp add: take_bit_int_eq_self)
  have "gen_if v i = 0" for i
  proof -
    have "bit v (25 + i) = bit (take_bit 25 v) (25 + i)"
      using tb by simp
    then have "\<not> bit v (25 + i)"
      by (simp add: bit_take_bit_iff)
    then show ?thesis
      by (simp add: gen_if_def)
  qed
  with tb show ?thesis
    by (simp add: polymod_shift_def)
qed

lemma gen_if_range: "i < 5 \<Longrightarrow> 0 \<le> gen_if c i \<and> gen_if c i < 2 ^ 30"
proof -
  assume "i < 5"
  then consider "i = 0" | "i = 1" | "i = 2" | "i = 3" | "i = 4"
    by linarith
  then show ?thesis
    by cases (simp_all add: gen_if_def generator_def)
qed

lemma xor_range30:
  "0 \<le> a \<and> a < 2 ^ 30 \<Longrightarrow> 0 \<le> b \<and> b < 2 ^ 30 \<Longrightarrow> 0 \<le> a XOR b \<and> a XOR b < 2 ^ 30"
  for a b :: int
  using XOR_upper [of a 30 b] by simp

lemma polymod_shift_range: "0 \<le> polymod_shift c \<and> polymod_shift c < 2 ^ 30"
proof -
  have p: "0 \<le> push_bit 5 (take_bit 25 c) \<and> push_bit 5 (take_bit 25 c) < 2 ^ 30"
  proof -
    have "take_bit 25 c < 2 ^ 25"
      by (rule take_bit_int_less_exp)
    then have "take_bit 25 c * 32 < 2 ^ 25 * 32"
      by (rule mult_strict_right_mono) simp
    then show ?thesis
      by (simp add: push_bit_eq_mult)
  qed
  have g4: "0 \<le> gen_if c 3 XOR gen_if c 4 \<and> gen_if c 3 XOR gen_if c 4 < 2 ^ 30"
    by (rule xor_range30) (rule gen_if_range, simp)+
  have g3: "0 \<le> gen_if c 2 XOR gen_if c 3 XOR gen_if c 4 \<and>
            gen_if c 2 XOR gen_if c 3 XOR gen_if c 4 < 2 ^ 30"
    by (rule xor_range30 [OF _ g4]) (rule gen_if_range, simp)
  have g2: "0 \<le> gen_if c 1 XOR gen_if c 2 XOR gen_if c 3 XOR gen_if c 4 \<and>
            gen_if c 1 XOR gen_if c 2 XOR gen_if c 3 XOR gen_if c 4 < 2 ^ 30"
    by (rule xor_range30 [OF _ g3]) (rule gen_if_range, simp)
  have g1: "0 \<le> gen_if c 0 XOR gen_if c 1 XOR gen_if c 2 XOR gen_if c 3 XOR gen_if c 4 \<and>
            gen_if c 0 XOR gen_if c 1 XOR gen_if c 2 XOR gen_if c 3 XOR gen_if c 4 < 2 ^ 30"
    by (rule xor_range30 [OF _ g2]) (rule gen_if_range, simp)
  show ?thesis
    unfolding polymod_shift_def by (rule xor_range30 [OF p g1])
qed

text \<open>Six rounds over values below 32.\<close>

lemma polymod_shift_push:
  assumes "0 \<le> v \<and> v < 32" and "n \<le> 20"
  shows "polymod_shift (push_bit n v) = push_bit (n + 5) v"
proof -
  have "v * 2 ^ n < 32 * 2 ^ n"
    using assms by simp
  moreover have "(2 :: int) ^ n \<le> 2 ^ 20"
    using assms by (intro power_increasing) simp_all
  ultimately have "v * 2 ^ n < 32 * 2 ^ 20"
    by linarith
  then have "push_bit n v < 2 ^ 25"
    by (simp add: push_bit_eq_mult)
  moreover have "0 \<le> push_bit n v"
    using assms by simp
  ultimately show ?thesis
    by (simp add: polymod_shift_small push_bit_push_bit add.commute)
qed

lemma six_rounds:
  assumes v0: "0 \<le> v0 \<and> v0 < 32" and v1: "0 \<le> v1 \<and> v1 < 32" and v2: "0 \<le> v2 \<and> v2 < 32"
    and v3: "0 \<le> v3 \<and> v3 < 32" and v4: "0 \<le> v4 \<and> v4 < 32"
  shows "foldl polymod_step c [v0, v1, v2, v3, v4, v5] =
           foldl polymod_step c [0, 0, 0, 0, 0, 0] XOR
           (push_bit 25 v0 XOR push_bit 20 v1 XOR push_bit 15 v2 XOR push_bit 10 v3
              XOR push_bit 5 v4 XOR v5)"
proof -
  define c1 where "c1 = polymod_shift c"
  define c2 where "c2 = polymod_shift c1"
  define c3 where "c3 = polymod_shift c2"
  define c4 where "c4 = polymod_shift c3"
  define c5 where "c5 = polymod_shift c4"
  define c6 where "c6 = polymod_shift c5"
  have p0: "polymod_shift v = push_bit 5 v" if "0 \<le> v \<and> v < 32" for v
    using polymod_shift_push [of v 0] that by simp
  have zero: "foldl polymod_step c [0, 0, 0, 0, 0, 0] = c6"
    by (simp add: polymod_step_eq c1_def c2_def c3_def c4_def c5_def c6_def)
  have t1: "polymod_step c v0 = c1 XOR v0"
    by (simp add: polymod_step_eq c1_def)
  have t2: "polymod_step (c1 XOR v0) v1 = c2 XOR (push_bit 5 v0 XOR v1)"
    by (simp add: polymod_step_eq polymod_shift_xor c2_def p0 [OF v0] xor.assoc)
  have t3: "polymod_step (c2 XOR (push_bit 5 v0 XOR v1)) v2 =
      c3 XOR (push_bit 10 v0 XOR (push_bit 5 v1 XOR v2))"
    using polymod_shift_push [OF v0, of 5]
    by (simp add: polymod_step_eq polymod_shift_xor c3_def p0 [OF v1] xor.assoc)
  have t4: "polymod_step (c3 XOR (push_bit 10 v0 XOR (push_bit 5 v1 XOR v2))) v3 =
      c4 XOR (push_bit 15 v0 XOR (push_bit 10 v1 XOR (push_bit 5 v2 XOR v3)))"
    using polymod_shift_push [OF v0, of 10] polymod_shift_push [OF v1, of 5]
    by (simp add: polymod_step_eq polymod_shift_xor c4_def p0 [OF v2] xor.assoc)
  have t5: "polymod_step (c4 XOR (push_bit 15 v0 XOR (push_bit 10 v1 XOR (push_bit 5 v2 XOR v3)))) v4 =
      c5 XOR (push_bit 20 v0 XOR (push_bit 15 v1 XOR (push_bit 10 v2 XOR (push_bit 5 v3 XOR v4))))"
    using polymod_shift_push [OF v0, of 15] polymod_shift_push [OF v1, of 10]
      polymod_shift_push [OF v2, of 5]
    by (simp add: polymod_step_eq polymod_shift_xor c5_def p0 [OF v3] xor.assoc)
  have t6: "polymod_step (c5 XOR (push_bit 20 v0 XOR (push_bit 15 v1 XOR (push_bit 10 v2
                XOR (push_bit 5 v3 XOR v4))))) v5 =
      c6 XOR (push_bit 25 v0 XOR (push_bit 20 v1 XOR (push_bit 15 v2 XOR (push_bit 10 v3
                XOR (push_bit 5 v4 XOR v5)))))"
    using polymod_shift_push [OF v0, of 20] polymod_shift_push [OF v1, of 15]
      polymod_shift_push [OF v2, of 10] polymod_shift_push [OF v3, of 5]
    by (simp add: polymod_step_eq polymod_shift_xor c6_def p0 [OF v4] xor.assoc)
  show ?thesis
    unfolding zero by (simp only: foldl.simps t1 t2 t3 t4 t5 t6 xor.assoc)
qed

lemma bit_digit:
  "bit (push_bit k (drop_bit k p AND 31)) n \<longleftrightarrow> k \<le> n \<and> n < k + 5 \<and> bit p n"
  for p :: int
proof -
  have m: "(31 :: int) = mask 5"
    by (simp add: mask_eq_exp_minus_1)
  show ?thesis
    unfolding m by (auto simp add: bit_simps)
qed

lemma digits30:
  assumes "0 \<le> (p :: int)" "p < 2 ^ 30"
  shows "push_bit 25 (drop_bit 25 p AND 31) XOR push_bit 20 (drop_bit 20 p AND 31)
           XOR push_bit 15 (drop_bit 15 p AND 31) XOR push_bit 10 (drop_bit 10 p AND 31)
           XOR push_bit 5 (drop_bit 5 p AND 31) XOR (p AND 31) = p"
proof (rule bit_eqI)
  fix n
  have tb: "take_bit 30 p = p"
    using assms by (simp add: take_bit_int_eq_self)
  have hi: "\<not> bit p n" if "30 \<le> n"
  proof -
    have "bit p n = bit (take_bit 30 p) n"
      using tb by simp
    with that show ?thesis
      by (simp add: bit_take_bit_iff)
  qed
  have d0: "bit (p AND 31) n \<longleftrightarrow> n < 5 \<and> bit p n"
    using bit_digit [of 0 p n] by simp
  consider "n < 5" | "5 \<le> n \<and> n < 10" | "10 \<le> n \<and> n < 15" | "15 \<le> n \<and> n < 20"
    | "20 \<le> n \<and> n < 25" | "25 \<le> n \<and> n < 30" | "30 \<le> n"
    by linarith
  then show "bit (push_bit 25 (drop_bit 25 p AND 31) XOR push_bit 20 (drop_bit 20 p AND 31)
           XOR push_bit 15 (drop_bit 15 p AND 31) XOR push_bit 10 (drop_bit 10 p AND 31)
           XOR push_bit 5 (drop_bit 5 p AND 31) XOR (p AND 31)) n = bit p n"
    unfolding bit_xor_iff bit_digit d0 using hi by cases simp_all
qed

section \<open>Regrouping bits\<close>

lemma digits_value_Nil [simp]: "digits_value w a [] = a"
  by (simp add: digits_value_def)

lemma digits_value_Cons [simp]: "digits_value w a (x # xs) = digits_value w (a * 2 ^ w + x) xs"
  by (simp add: digits_value_def)

lemma digits_value_snoc [simp]: "digits_value w a (xs @ [x]) = digits_value w a xs * 2 ^ w + x"
  by (simp add: digits_value_def)

lemma in_range_simps [simp]:
  "in_range w []"
  "in_range w (x # xs) \<longleftrightarrow> 0 \<le> x \<and> x < 2 ^ w \<and> in_range w xs"
  "in_range w (xs @ ys) \<longleftrightarrow> in_range w xs \<and> in_range w ys"
  by (auto simp add: in_range_def)

lemma digits_value_inject:
  assumes "length xs = length ys" "in_range w xs" "in_range w ys"
    and "digits_value w a xs = digits_value w a ys"
  shows "xs = ys"
  using assms
proof (induction xs arbitrary: ys rule: rev_induct)
  case Nil
  then show ?case by simp
next
  case (snoc x xs)
  from snoc.prems(1) obtain y ys' where ys: "ys = ys' @ [y]"
    by (cases ys rule: rev_cases) auto
  from snoc.prems ys have x: "0 \<le> x" "x < 2 ^ w" and y: "0 \<le> y" "y < 2 ^ w"
    and eq: "digits_value w a xs * 2 ^ w + x = digits_value w a ys' * 2 ^ w + y"
    by simp_all
  have "(digits_value w a xs * 2 ^ w + x) mod 2 ^ w = x"
    using x by simp
  moreover have "(digits_value w a ys' * 2 ^ w + y) mod 2 ^ w = y"
    using y by simp
  ultimately have xy: "x = y"
    using eq by simp
  with eq have "digits_value w a xs = digits_value w a ys'"
    by simp
  with snoc.IH [of ys'] snoc.prems ys have "xs = ys'"
    by simp
  with xy ys show ?case
    by simp
qed

lemma mask_minus_1: "push_bit n 1 - 1 = (mask n :: int)"
  by (simp add: mask_eq_exp_minus_1)

lemma take_bit_split:
  "take_bit (m + n) a = take_bit m a + push_bit m (take_bit n (drop_bit m a))" for a :: int
proof -
  have "push_bit m (drop_bit m (take_bit (m + n) a)) + take_bit m (take_bit (m + n) a) =
      take_bit (m + n) a"
    by (rule bits_ident)
  moreover have "drop_bit m (take_bit (m + n) a) = take_bit n (drop_bit m a)"
    by (simp add: take_bit_drop_bit add.commute)
  moreover have "take_bit m (take_bit (m + n) a) = take_bit m a"
    by simp
  ultimately show ?thesis
    by simp
qed

lemma emit_inv:
  assumes "0 < t" "in_range t ret"
  shows "case emit t (mask t) acc bits ret of
           (bits1, ret1) \<Rightarrow>
             bits1 < t \<and> in_range t ret1 \<and>
             t * length ret1 + bits1 = t * length ret + bits \<and>
             state_value t acc bits1 ret1 = state_value t acc bits ret"
  using assms
proof (induction t "mask t :: int" acc bits ret rule: emit.induct)
  case (1 t acc bits ret)
  show ?case
  proof (cases "t \<le> bits")
    case False
    with 1 show ?thesis
      by (simp add: emit.simps [of t _ acc bits ret])
  next
    case True
    let ?d = "drop_bit (bits - t) acc AND mask t"
    have d: "?d = take_bit t (drop_bit (bits - t) acc)"
      by (simp add: take_bit_eq_mask)
    have r: "in_range t (ret @ [?d])"
      using 1 by (simp add: d)
    have v: "state_value t acc (bits - t) (ret @ [?d]) = state_value t acc bits ret"
    proof -
      have "take_bit bits acc = take_bit ((bits - t) + t) acc"
        using True by simp
      also have "\<dots> = take_bit (bits - t) acc + push_bit (bits - t) ?d"
        unfolding d by (rule take_bit_split)
      finally have tb: "take_bit bits acc = take_bit (bits - t) acc + ?d * 2 ^ (bits - t)"
        by (simp add: push_bit_eq_mult)
      have "(2 :: int) ^ bits = 2 ^ t * 2 ^ (bits - t)"
        using True by (simp flip: power_add)
      with tb show ?thesis
        by (simp add: state_value_def algebra_simps)
    qed
    from "1.hyps" [OF _ \<open>0 < t\<close> r] True \<open>0 < t\<close>
    have "case emit t (mask t) acc (bits - t) (ret @ [?d]) of
           (bits1, ret1) \<Rightarrow>
             bits1 < t \<and> in_range t ret1 \<and>
             t * length ret1 + bits1 = t * length (ret @ [?d]) + (bits - t) \<and>
             state_value t acc bits1 ret1 = state_value t acc (bits - t) (ret @ [?d])"
      by simp
    with True \<open>0 < t\<close> v show ?thesis
      by (simp add: emit.simps [of t _ acc bits ret] split: prod.splits)
  qed
qed

lemma drop_bit_eq_0_bound:
  fixes v :: int
  assumes "0 \<le> v" "drop_bit f v = 0"
  shows "v < 2 ^ f"
proof -
  have "push_bit f (drop_bit f v) + take_bit f v = v"
    by (rule bits_ident)
  with assms have "take_bit f v = v"
    by simp
  then show ?thesis
    by (metis take_bit_int_less_exp)
qed

lemma bound_drop_bit_eq_0:
  fixes v :: int
  assumes "0 \<le> v" "v < 2 ^ f"
  shows "drop_bit f v = 0"
  using assms by (simp add: drop_bit_eq_div)

text \<open>Taking a value in: the accumulator after \<open>acc = ((acc << f) | v) & max_acc\<close>.\<close>

lemma take_in:
  fixes v :: int
  assumes "0 \<le> v" "v < 2 ^ f" "bits < t"
  shows "take_bit (bits + f) ((push_bit f acc OR v) AND mask (f + t - 1)) =
           take_bit bits acc * 2 ^ f + v"
proof -
  have le: "bits + f \<le> f + t - 1"
    using assms by simp
  have "take_bit (bits + f) ((push_bit f acc OR v) AND mask (f + t - 1)) =
      take_bit (bits + f) (take_bit (f + t - 1) (push_bit f acc OR v))"
    by (simp add: take_bit_eq_mask)
  also have "\<dots> = take_bit (bits + f) (push_bit f acc OR v)"
    using le by (simp add: min_def)
  also have "\<dots> = take_bit (f + bits) (push_bit f acc) OR take_bit (f + bits) v"
    by (simp add: add.commute)
  also have "take_bit (f + bits) (push_bit f acc) = push_bit f (take_bit bits acc)"
    by (simp add: push_bit_take_bit)
  also have "take_bit (f + bits) v = v"
  proof -
    have "(2 :: int) ^ f \<le> 2 ^ (f + bits)"
      by (intro power_increasing) simp_all
    with assms have "v < 2 ^ (f + bits)"
      by linarith
    with assms show ?thesis
      by (simp add: take_bit_int_eq_self)
  qed
  also have "push_bit f (take_bit bits acc) OR v = push_bit f (take_bit bits acc) + v"
  proof -
    have "take_bit f v = v"
      using assms by (simp add: take_bit_int_eq_self)
    then have "\<not> bit v n" if "f \<le> n" for n
      using that by (metis bit_take_bit_iff not_le)
    then have "push_bit f (take_bit bits acc) + v = push_bit f (take_bit bits acc) OR v"
      by (intro disjunctive_add) (auto simp add: bit_push_bit_iff)
    then show ?thesis
      by simp
  qed
  finally show ?thesis
    by (simp add: push_bit_eq_mult)
qed

lemma convert_loop_inv:
  assumes "0 < t" "in_range f data" "in_range t ret" "bits < t"
  shows "\<exists>acc1 bits1 ret1.
           convert_loop f t (mask t) (mask (f + t - 1)) (acc, bits, ret) data =
             Some (acc1, bits1, ret1) \<and>
           bits1 < t \<and> in_range t ret1 \<and>
           t * length ret1 + bits1 = t * length ret + bits + f * length data \<and>
           state_value t acc1 bits1 ret1 = digits_value f (state_value t acc bits ret) data"
  using assms
proof (induction data arbitrary: acc bits ret)
  case Nil
  then show ?case by simp
next
  case (Cons v data)
  from Cons.prems have v: "0 \<le> v" "v < 2 ^ f" and data: "in_range f data"
    by simp_all
  let ?acc = "(push_bit f acc OR v) AND mask (f + t - 1)"
  obtain bits2 ret2 where e: "emit t (mask t) ?acc (bits + f) ret = (bits2, ret2)"
    by fastforce
  from emit_inv [where acc = ?acc and bits = "bits + f", OF \<open>0 < t\<close> \<open>in_range t ret\<close>] e
  have e2: "bits2 < t" "in_range t ret2"
      "t * length ret2 + bits2 = t * length ret + (bits + f)"
      "state_value t ?acc bits2 ret2 = state_value t ?acc (bits + f) ret"
    by simp_all
  have sv: "state_value t ?acc (bits + f) ret = state_value t acc bits ret * 2 ^ f + v"
    using take_in [OF v \<open>bits < t\<close>, of acc]
    by (simp add: state_value_def power_add algebra_simps)
  from Cons.IH [where acc = ?acc and bits = bits2 and ret = ret2, OF \<open>0 < t\<close> data e2(2) e2(1)]
  obtain acc1 bits1 ret1 where
    r: "convert_loop f t (mask t) (mask (f + t - 1)) (?acc, bits2, ret2) data =
             Some (acc1, bits1, ret1)"
      "bits1 < t" "in_range t ret1"
      "t * length ret1 + bits1 = t * length ret2 + bits2 + f * length data"
      "state_value t acc1 bits1 ret1 = digits_value f (state_value t ?acc bits2 ret2) data"
    by blast
  have "convert_loop f t (mask t) (mask (f + t - 1)) (acc, bits, ret) (v # data) =
      Some (acc1, bits1, ret1)"
    using v e r(1) by (simp add: bound_drop_bit_eq_0)
  moreover have "t * length ret1 + bits1 = t * length ret + bits + f * length (v # data)"
    using r(4) e2(3) by simp
  moreover have "state_value t acc1 bits1 ret1 =
      digits_value f (state_value t acc bits ret) (v # data)"
    using r(5) e2(4) sv by simp
  ultimately show ?case
    using r(2,3) by blast
qed

lemma convertbits_mask:
  "convertbits data f t pad =
     (case convert_loop f t (mask t) (mask (f + t - 1)) (0, 0, []) data of
        None \<Rightarrow> None
      | Some (acc, bits, ret) \<Rightarrow>
          (if pad then
             (if bits \<noteq> 0 then Some (ret @ [push_bit (t - bits) acc AND mask t])
              else Some ret)
           else if f \<le> bits \<or> push_bit (t - bits) acc AND mask t \<noteq> 0 then None
           else Some ret))"
  unfolding convertbits_def Let_def mask_minus_1 ..

text \<open>What \<^verbatim>\<open>convertbits\<close> returns with padding.\<close>

lemma convertbits_pad:
  assumes "0 < t" "in_range f data"
  shows "\<exists>out pad.
           convertbits data f t True = Some out \<and> in_range t out \<and> pad < t \<and>
           t * length out = f * length data + pad \<and>
           digits_value t 0 out = digits_value f 0 data * 2 ^ pad"
proof -
  from convert_loop_inv [OF assms(1,2), of "[]" 0 0] assms(1)
  obtain acc bits ret where
    r: "convert_loop f t (mask t) (mask (f + t - 1)) (0, 0, []) data = Some (acc, bits, ret)"
      "bits < t" "in_range t ret" "t * length ret + bits = f * length data"
      "state_value t acc bits ret = digits_value f 0 data"
    by (auto simp add: state_value_def)
  show ?thesis
  proof (cases "bits = 0")
    case True
    with r have "convertbits data f t True = Some ret"
      by (simp add: convertbits_mask)
    moreover from True r(5) have "digits_value t 0 ret = digits_value f 0 data * 2 ^ 0"
      by (simp add: state_value_def)
    ultimately show ?thesis
      using r(3,4) True assms(1) by (intro exI [of _ ret] exI [of _ 0]) simp
  next
    case False
    let ?last = "push_bit (t - bits) acc AND mask t"
    have last: "?last = take_bit bits acc * 2 ^ (t - bits)"
    proof -
      have "?last = take_bit ((t - bits) + bits) (push_bit (t - bits) acc)"
        using r(2) by (simp add: take_bit_eq_mask)
      also have "\<dots> = push_bit (t - bits) (take_bit bits acc)"
        by (simp only: push_bit_take_bit)
      finally show ?thesis
        by (simp add: push_bit_eq_mult)
    qed
    have lr: "0 \<le> ?last \<and> ?last < 2 ^ t"
      by (simp add: take_bit_eq_mask [symmetric])
    from False r have c: "convertbits data f t True = Some (ret @ [?last])"
      by (simp add: convertbits_mask)
    have p: "(2 :: int) ^ t = 2 ^ bits * 2 ^ (t - bits)"
      using r(2) by (simp flip: power_add)
    have "digits_value t 0 (ret @ [?last]) = state_value t acc bits ret * 2 ^ (t - bits)"
      by (simp add: last state_value_def p algebra_simps)
    with r(5) have dv: "digits_value t 0 (ret @ [?last]) = digits_value f 0 data * 2 ^ (t - bits)"
      by simp
    have len: "t * length (ret @ [?last]) = f * length data + (t - bits)"
      using r(2,4) by simp
    show ?thesis
      using c r(3) lr False r(2) dv len
      by (intro exI [of _ "ret @ [?last]"] exI [of _ "t - bits"]) simp
  qed
qed

lemma pad_unique:
  fixes bits pad n m k :: nat
  assumes "bits < 8" "pad < 5" "8 * n + bits = 5 * m" "5 * m = 8 * k + pad"
  shows "bits = pad \<and> n = k"
proof -
  from assms have e: "8 * n + bits = 8 * k + pad"
    by simp
  consider "n < k" | "k < n" | "n = k"
    by linarith
  then show ?thesis
  proof cases
    case 1
    then have "8 * n + 8 \<le> 8 * k" by simp
    with e assms(1) show ?thesis by linarith
  next
    case 2
    then have "8 * k + 8 \<le> 8 * n" by simp
    with e assms(2) show ?thesis by linarith
  next
    case 3
    with e show ?thesis by simp
  qed
qed

lemma low_part_zero:
  fixes x y r :: int
  assumes "x * 2 ^ p + r = y * 2 ^ p" "0 \<le> r" "r < 2 ^ p"
  shows "r = 0 \<and> x = y"
proof -
  have "(x * 2 ^ p + r) mod 2 ^ p = r"
    using assms(2,3) by simp
  with assms(1) have "r = 0"
    by simp
  with assms(1) show ?thesis
    by simp
qed

lemma pad_bits_zero:
  fixes acc :: int
  assumes "bits < t" "take_bit bits acc = 0"
  shows "push_bit (t - bits) acc AND mask t = 0"
proof -
  have "push_bit (t - bits) acc AND mask t = take_bit ((t - bits) + bits) (push_bit (t - bits) acc)"
    using assms(1) by (simp add: take_bit_eq_mask)
  also have "\<dots> = push_bit (t - bits) (take_bit bits acc)"
    by (simp only: push_bit_take_bit)
  finally show ?thesis
    using assms(2) by simp
qed

text \<open>Regrouping bytes into 5-bit groups and back gives the bytes.\<close>

lemma convertbits_roundtrip:
  assumes "in_range 8 bs"
  shows "\<exists>data. convertbits bs 8 5 True = Some data \<and> in_range 5 data \<and>
           5 * length data < 8 * length bs + 5 \<and>
           convertbits data 5 8 False = Some bs"
proof -
  have "\<exists>out pad.
           convertbits bs 8 5 True = Some out \<and> in_range 5 out \<and> pad < 5 \<and>
           5 * length out = 8 * length bs + pad \<and>
           digits_value 5 0 out = digits_value 8 0 bs * 2 ^ pad"
    by (rule convertbits_pad) (simp_all add: assms)
  then obtain data pad where
    d: "convertbits bs 8 5 True = Some data" "in_range 5 data" "pad < 5"
      "5 * length data = 8 * length bs + pad"
      "digits_value 5 0 data = digits_value 8 0 bs * 2 ^ pad"
    by blast
  have "\<exists>acc1 bits1 ret1.
           convert_loop 5 8 (mask 8) (mask (5 + 8 - 1)) (0, 0, []) data =
             Some (acc1, bits1, ret1) \<and>
           bits1 < 8 \<and> in_range 8 ret1 \<and>
           8 * length ret1 + bits1 = 8 * length ([] :: int list) + 0 + 5 * length data \<and>
           state_value 8 acc1 bits1 ret1 = digits_value 5 (state_value 8 0 0 []) data"
    by (rule convert_loop_inv) (simp_all add: d(2))
  then obtain acc bits ret where
    r: "convert_loop 5 8 (mask 8) (mask (5 + 8 - 1)) (0, 0, []) data = Some (acc, bits, ret)"
      "bits < 8" "in_range 8 ret"
      "8 * length ret + bits = 8 * length ([] :: int list) + 0 + 5 * length data"
      "state_value 8 acc bits ret = digits_value 5 (state_value 8 0 0 []) data"
    by blast
  from r(4) have r4: "8 * length ret + bits = 5 * length data"
    by simp
  from pad_unique [OF r(2) d(3) r4 d(4)] have bp: "bits = pad" and len: "length ret = length bs"
    by simp_all
  have sv0: "state_value 8 0 0 [] = 0"
    by (simp add: state_value_def)
  have "digits_value 8 0 ret * 2 ^ pad + take_bit pad acc = digits_value 8 0 bs * 2 ^ pad"
    using r(5) d(5) unfolding sv0 bp state_value_def by simp
  from low_part_zero [OF this] have z: "take_bit pad acc = 0"
    and dv: "digits_value 8 0 ret = digits_value 8 0 bs"
    by simp_all
  have rb: "ret = bs"
    using len r(3) assms dv by (rule digits_value_inject)
  have pz: "push_bit (8 - bits) acc AND mask 8 = 0"
    using r(2) z unfolding bp by (rule pad_bits_zero)
  have nb: "\<not> 5 \<le> bits"
    using d(3) bp by simp
  have "convertbits data 5 8 False = Some bs"
    unfolding convertbits_mask r(1) using pz nb rb by simp
  with d(1,2,3,4) show ?thesis
    by auto
qed

section \<open>The codec\<close>

lemma upt6: "[0..<6] = [0, 1, 2, 3, 4, 5]"
  by (simp add: upt_rec)

lemma create_checksum_eq:
  "bech32_create_checksum hrp data =
     (let p = bech32_polymod (bech32_hrp_expand hrp @ data @ [0, 0, 0, 0, 0, 0]) XOR 1
      in [drop_bit 25 p AND 31, drop_bit 20 p AND 31, drop_bit 15 p AND 31,
          drop_bit 10 p AND 31, drop_bit 5 p AND 31, p AND 31])"
  by (simp add: bech32_create_checksum_def Let_def upt6)

lemma and_31_range: "0 \<le> x AND 31 \<and> x AND 31 < 32" for x :: int
proof -
  have "(31 :: int) = mask 5"
    by (simp add: mask_eq_exp_minus_1)
  then have "x AND 31 = take_bit 5 x"
    by (simp add: take_bit_eq_mask)
  moreover have "take_bit 5 x < 2 ^ 5"
    by (rule take_bit_int_less_exp)
  ultimately show ?thesis
    by simp
qed

lemma create_checksum_range: "in_range 5 (bech32_create_checksum hrp data)"
  using and_31_range by (simp add: create_checksum_eq Let_def)

lemma create_checksum_length: "length (bech32_create_checksum hrp data) = 6"
  by (simp add: create_checksum_eq Let_def)

lemma polymod_zeros_range:
  "0 \<le> foldl polymod_step c [0, 0, 0, 0, 0, 0] \<and> foldl polymod_step c [0, 0, 0, 0, 0, 0] < 2 ^ 30"
  using polymod_shift_range by (simp add: polymod_step_eq)

lemma checksum_verifies:
  "bech32_verify_checksum hrp (data @ bech32_create_checksum hrp data)"
proof -
  define c where "c = foldl polymod_step 1 (bech32_hrp_expand hrp @ data)"
  define z where "z = foldl polymod_step c [0, 0, 0, 0, 0, 0]"
  define p where "p = z XOR 1"
  have zr: "0 \<le> z \<and> z < 2 ^ 30"
    unfolding z_def by (rule polymod_zeros_range)
  have pr: "0 \<le> p \<and> p < 2 ^ 30"
    unfolding p_def by (rule xor_range30 [OF zr]) simp
  have cs: "bech32_create_checksum hrp data =
      [drop_bit 25 p AND 31, drop_bit 20 p AND 31, drop_bit 15 p AND 31,
       drop_bit 10 p AND 31, drop_bit 5 p AND 31, p AND 31]"
    by (simp add: create_checksum_eq bech32_polymod_def p_def z_def c_def Let_def)
  have "bech32_polymod (bech32_hrp_expand hrp @ data @ bech32_create_checksum hrp data) =
      foldl polymod_step c (bech32_create_checksum hrp data)"
    by (simp add: bech32_polymod_def c_def)
  also have "\<dots> = foldl polymod_step c
      [drop_bit 25 p AND 31, drop_bit 20 p AND 31, drop_bit 15 p AND 31,
       drop_bit 10 p AND 31, drop_bit 5 p AND 31, p AND 31]"
    by (simp only: cs)
  also have "\<dots> = z XOR
      (push_bit 25 (drop_bit 25 p AND 31) XOR push_bit 20 (drop_bit 20 p AND 31)
         XOR push_bit 15 (drop_bit 15 p AND 31) XOR push_bit 10 (drop_bit 10 p AND 31)
         XOR push_bit 5 (drop_bit 5 p AND 31) XOR (p AND 31))"
    unfolding z_def by (rule six_rounds) (rule and_31_range)+
  also have "\<dots> = z XOR p"
    using digits30 [of p] pr by simp
  also have "\<dots> = 1"
    by (simp add: p_def flip: xor.assoc)
  finally show ?thesis
    by (simp add: bech32_verify_checksum_def)
qed

text \<open>The charset.\<close>

lemma CHARSET_eq:
  "CHARSET = [113, 112, 122, 114, 121, 57, 120, 56, 103, 102, 50, 116, 118, 100, 119, 48,
              115, 51, 106, 110, 53, 52, 107, 104, 99, 101, 54, 109, 117, 97, 55, 108]"
  by (simp add: CHARSET_def lit_def)

lemma length_CHARSET: "length CHARSET = 32"
  by (simp add: CHARSET_eq)

lemma CHARSET_chars:
  "list_all (\<lambda>c. c \<noteq> 49 \<and> 33 \<le> upper_cp c \<and> upper_cp c \<le> 126 \<and> lower_cp (upper_cp c) = c \<and>
                  upper_cp (upper_cp c) = upper_cp c) CHARSET"
  by (simp add: CHARSET_eq upper_cp_def lower_cp_def)

lemma find_CHARSET: "list_all (\<lambda>i. find CHARSET (CHARSET ! i) = int i) [0..<32]"
  by code_simp

lemma find_CHARSET_nth: "i < 32 \<Longrightarrow> find CHARSET (CHARSET ! i) = int i"
  using find_CHARSET by (simp add: list_all_iff)

lemma charset_at_range: "0 \<le> d \<Longrightarrow> d < 32 \<Longrightarrow> charset_at d = Some (CHARSET ! nat d)"
  by (simp add: charset_at_def)

lemma join_charset_range:
  "in_range 5 ds \<Longrightarrow> join_charset ds = Some (map (\<lambda>d. CHARSET ! nat d) ds)"
  by (induction ds) (simp_all add: charset_at_range)

lemma CHARSET_nth_mem: "0 \<le> d \<Longrightarrow> d < 32 \<Longrightarrow> CHARSET ! nat d \<in> set CHARSET"
  by (simp add: length_CHARSET)

lemma find_CHARSET_int: "0 \<le> d \<Longrightarrow> d < 32 \<Longrightarrow> find CHARSET (CHARSET ! nat d) = d"
  using find_CHARSET_nth [of "nat d"] by simp

lemma find_back:
  "in_range 5 ds \<Longrightarrow> map (find CHARSET) (map (\<lambda>d. CHARSET ! nat d) ds) = ds"
  by (induction ds) (simp_all add: find_CHARSET_int)

text \<open>Searching from the right.\<close>

lemma rfind_notin: "c \<notin> set ys \<Longrightarrow> rfind ys c = - 1"
  by (induction ys) (simp_all add: Let_def)

lemma rfind_last: "c \<notin> set ys \<Longrightarrow> rfind (xs @ c # ys) c = int (length xs)"
  by (induction xs) (simp_all add: Let_def rfind_notin)

text \<open>UTF-8 on ASCII.\<close>

lemma utf8_encode_ascii:
  "list_all (\<lambda>c. c < 128) url \<Longrightarrow> utf8_encode url = Some (map int url)"
  by (induction url) (simp_all add: utf8_encode_cp_def)

lemma utf8_decode_ascii:
  "list_all (\<lambda>c. c < 128) url \<Longrightarrow> utf8_decode (map int url) = Some url"
  by (induction url) simp_all

text \<open>What \<open>url_encode\<close> returns for printable ASCII.\<close>

lemma printable_ascii: "printable url \<Longrightarrow> list_all (\<lambda>c. c < 128) url"
  by (induction url) (simp_all add: printable_def)

lemma in_range_bytes: "list_all (\<lambda>c. c < 128) url \<Longrightarrow> in_range 8 (map int url)"
  by (induction url) simp_all

lemma bytes_ascii: "list_all (\<lambda>c. c < 128) url \<Longrightarrow> bytes (Some (map int url)) = Inr (map int url)"
proof -
  assume "list_all (\<lambda>c. c < 128) url"
  then have "list_all (\<lambda>b. 0 \<le> b \<and> b < 256) (map int url)"
    by (induction url) simp_all
  then show ?thesis
    by (simp add: bytes_def)
qed

lemma url_encode_form:
  assumes "printable url"
  shows "\<exists>data. in_range 5 data \<and> convertbits data 5 8 False = Some (map int url) \<and>
           url_encode url =
             Inr (upper (lit ''lnurl'' @ [49] @
                    map (\<lambda>d. CHARSET ! nat d) (data @ bech32_create_checksum (lit ''lnurl'') data)))"
proof -
  have a: "list_all (\<lambda>c. c < 128) url"
    using assms by (rule printable_ascii)
  from convertbits_roundtrip [OF in_range_bytes [OF a]]
  obtain data where d: "convertbits (map int url) 8 5 True = Some data" "in_range 5 data"
      "convertbits data 5 8 False = Some (map int url)"
    by blast
  have "in_range 5 (data @ bech32_create_checksum (lit ''lnurl'') data)"
    using d(2) create_checksum_range by simp
  then have "bech32_encode (lit ''lnurl'') data =
      Inr (lit ''lnurl'' @ [49] @
             map (\<lambda>d. CHARSET ! nat d) (data @ bech32_create_checksum (lit ''lnurl'') data))"
    by (simp add: bech32_encode_def join_charset_range lit_def)
  then have "url_encode url =
             Inr (upper (lit ''lnurl'' @ [49] @
                    map (\<lambda>d. CHARSET ! nat d) (data @ bech32_create_checksum (lit ''lnurl'') data)))"
    by (simp add: url_encode_def utf8_encode_ascii [OF a] d(1))
  with d show ?thesis
    by blast
qed

text \<open>Characters of the charset, in upper case and back.\<close>

lemma CHARSET_like: "c \<in> set CHARSET \<Longrightarrow> charset_like c"
  using CHARSET_chars by (simp add: list_all_iff charset_like_def)

lemma charset_text:
  assumes "in_range 5 ds"
  shows "list_all (\<lambda>c. c \<in> set CHARSET) (map (\<lambda>d. CHARSET ! nat d) ds)"
  using assms by (induction ds) (simp_all add: CHARSET_nth_mem)

lemma charset_like_text:
  assumes "list_all (\<lambda>c. c \<in> set CHARSET) cs"
  shows "49 \<notin> set cs" and "lower (upper cs) = cs" and "upper (upper cs) = upper cs"
    and "\<not> list_ex (\<lambda>x. x < 33 \<or> 126 < x) (upper cs)"
proof -
  from assms have l: "list_all charset_like cs"
    by (induction cs) (simp_all add: CHARSET_like)
  then show "49 \<notin> set cs"
    by (induction cs) (auto simp add: charset_like_def)
  from l show "lower (upper cs) = cs"
    by (induction cs) (simp_all add: charset_like_def lower_def upper_def)
  from l show "upper (upper cs) = upper cs"
    by (induction cs) (simp_all add: charset_like_def upper_def)
  from l show "\<not> list_ex (\<lambda>x. x < 33 \<or> 126 < x) (upper cs)"
    by (induction cs) (auto simp add: charset_like_def upper_def)
qed

lemma upper_Cons: "upper (x # xs) = upper_cp x # upper xs"
  by (simp add: upper_def)

lemma lower_Cons: "lower (x # xs) = lower_cp x # lower xs"
  by (simp add: lower_def)

text \<open>\<open>bech32_decode\<close> on a string that \<open>bech32_encode\<close> built, in upper case.\<close>

lemma bech32_decode_encoded:
  assumes r: "in_range 5 data"
  shows "bech32_decode (upper (lit ''lnurl'' @ [49] @
            map (\<lambda>d. CHARSET ! nat d) (data @ bech32_create_checksum (lit ''lnurl'') data))) =
         (Some (lit ''lnurl''), Some data)"
proof -
  define cks where "cks = bech32_create_checksum (lit ''lnurl'') data"
  define cs where "cs = map (\<lambda>d. CHARSET ! nat d) (data @ cks)"
  define e where "e = upper (lit ''lnurl'' @ [49] @ cs)"
  have rc: "in_range 5 (data @ cks)"
    using r create_checksum_range by (simp add: cks_def)
  have lc: "length cs = length data + 6"
    by (simp add: cs_def cks_def create_checksum_length)
  have cs_in: "list_all (\<lambda>c. c \<in> set CHARSET) cs"
    unfolding cs_def using rc by (rule charset_text)
  note ct = charset_like_text [OF cs_in]
  have e_eq: "e = [76, 78, 85, 82, 76, 49] @ upper cs"
    by (simp add: e_def upper_def lit_def upper_cp_def)
  have g1: "\<not> list_ex (\<lambda>x. x < 33 \<or> 126 < x) e"
    using ct(4) by (simp add: e_eq)
  have g2: "upper e = e"
    by (simp add: e_eq upper_Cons upper_cp_def ct(3))
  have low: "lower e = lit ''lnurl'' @ 49 # cs"
    by (simp add: e_eq lower_Cons lower_cp_def ct(2) lit_def)
  have pos: "rfind (lower e) 49 = 5"
    unfolding low using rfind_last [OF ct(1), of "lit ''lnurl''"] by (simp add: lit_def)
  have le: "length (lower e) = length data + 12"
    by (simp add: low lc lit_def)
  have dr: "drop 6 (lower e) = cs" and tk: "take 5 (lower e) = lit ''lnurl''"
    by (simp_all add: low lit_def)
  have fb: "map (find CHARSET) cs = data @ cks"
    unfolding cs_def using rc by (rule find_back)
  have ok: "bech32_verify_checksum (lit ''lnurl'') (data @ cks)"
    unfolding cks_def by (rule checksum_verifies)
  have "bech32_decode e = (Some (lit ''lnurl''), Some data)"
    using g1 g2 ok
    by (simp add: bech32_decode_def pos le dr tk fb cs_in cks_def create_checksum_length)
  then show ?thesis
    by (simp add: e_def cs_def cks_def)
qed

section \<open>The round trip\<close>

text \<open>
  C1. Encoding a printable-ASCII URL always succeeds, the result carries no
  \<^verbatim>\<open>lightning:\<close> prefix, and decoding it gives the URL back. The decoder of the
  \<^verbatim>\<open>bech32\<close> package has no ceiling on the length, so this holds for a URL of any
  length, and so for every URL whose encoding stays under the ceiling of 90 characters
  that BIP 173 sets.
\<close>

theorem lnurl_roundtrip:
  assumes "printable url"
  shows "\<exists>e. url_encode url = Inr e \<and> \<not> startswith e (lit ''lightning:'') \<and>
           lnurl_decode e = Inr url"
proof -
  from url_encode_form [OF assms]
  obtain data where d: "in_range 5 data" "convertbits data 5 8 False = Some (map int url)"
    and e: "url_encode url =
             Inr (upper (lit ''lnurl'' @ [49] @
                    map (\<lambda>d. CHARSET ! nat d) (data @ bech32_create_checksum (lit ''lnurl'') data)))"
    by blast
  define e1 where "e1 = upper (lit ''lnurl'' @ [49] @
      map (\<lambda>d. CHARSET ! nat d) (data @ bech32_create_checksum (lit ''lnurl'') data))"
  have a: "list_all (\<lambda>c. c < 128) url"
    using assms by (rule printable_ascii)
  have ns: "\<not> startswith e1 (lit ''lightning:'')"
    by (simp add: e1_def startswith_def lit_def upper_Cons upper_cp_def)
  then have st: "strip_scheme e1 = e1"
    by (simp add: strip_scheme_def)
  from bech32_decode_encoded [OF d(1)]
  have "bech32_decode e1 = (Some (lit ''lnurl''), Some data)"
    by (simp add: e1_def)
  then have dec: "lnurl_decode e1 = Inr url"
    by (simp add: lnurl_decode_def st bech32_decode_tools_def d(2) bytes_ascii [OF a]
          utf8_decode_ascii [OF a])
  show ?thesis
    using e ns dec unfolding e1_def by blast
qed

theorem lnurl_roundtrip_witness:
  "printable (lit ''https://x.com/cb'') \<and>
   url_encode (lit ''https://x.com/cb'') = Inr (lit ''LNURL1DP68GURN8GHJ77PWVDHK6TMRVG05650A'') \<and>
   lnurl_decode (lit ''LNURL1DP68GURN8GHJ77PWVDHK6TMRVG05650A'') = Inr (lit ''https://x.com/cb'')"
proof -
  have p: "printable (lit ''https://x.com/cb'')"
    by code_simp
  have e: "url_encode (lit ''https://x.com/cb'') = Inr (lit ''LNURL1DP68GURN8GHJ77PWVDHK6TMRVG05650A'')"
    by code_simp
  from lnurl_roundtrip [OF p] e
  have "lnurl_decode (lit ''LNURL1DP68GURN8GHJ77PWVDHK6TMRVG05650A'') = Inr (lit ''https://x.com/cb'')"
    by auto
  with p e show ?thesis
    by simp
qed

section \<open>The errors of the decode path\<close>

lemma bech32_decode_bad_checksum:
  assumes "\<not> bech32_verify_checksum (take (nat (rfind (lower s) 49)) (lower s))
               (map (find CHARSET) (drop (nat (rfind (lower s) 49) + 1) (lower s)))"
  shows "bech32_decode s = (None, None)"
  using assms by (simp add: bech32_decode_def Let_def)

lemma bech32_decode_accepted:
  assumes "bech32_decode s = (Some h, Some data)"
  shows "h = take (length h) (lower s) \<and>
         bech32_verify_checksum h (map (find CHARSET) (drop (length h + 1) (lower s)))"
proof -
  define bech where "bech = lower s"
  define pos where "pos = rfind bech 49"
  from assms have c: "\<not> (pos < 1 \<or> int (length bech) < pos + 7)"
    and v: "bech32_verify_checksum (take (nat pos) bech)
              (map (find CHARSET) (drop (nat pos + 1) bech))"
    and h: "h = take (nat pos) bech"
    unfolding bech_def pos_def
    by (simp_all add: bech32_decode_def Let_def split: if_splits)
  from c have "nat pos \<le> length bech"
    by arith
  with h have "length h = nat pos"
    by simp
  with h v show ?thesis
    by (simp add: bech_def)
qed

lemma convert_loop_Some_in_range:
  "convert_loop f t mv ma st data = Some st1 \<Longrightarrow> in_range f data"
proof (induction data arbitrary: st)
  case Nil
  then show ?case by simp
next
  case (Cons v data)
  obtain acc bits ret where st: "st = (acc, bits, ret)"
    by (cases st)
  from Cons.prems st have v: "0 \<le> v" "drop_bit f v = 0"
    by (auto split: if_splits)
  with Cons.prems st obtain st2 where "convert_loop f t mv ma st2 data = Some st1"
    by (auto simp add: Let_def split: prod.splits)
  then have "in_range f data"
    by (rule Cons.IH)
  with v show ?case
    by (simp add: drop_bit_eq_0_bound)
qed

lemma convertbits_unpadded_range:
  assumes "convertbits data f t False = Some out" and "0 < t"
  shows "in_range t out"
proof -
  from assms(1) obtain acc bits where
    c: "convert_loop f t (mask t) (mask (f + t - 1)) (0, 0, []) data = Some (acc, bits, out)"
    by (auto simp add: convertbits_mask split: option.splits if_splits)
  then have "in_range f data"
    by (rule convert_loop_Some_in_range)
  from convert_loop_inv [OF assms(2) this, of "[]" 0 0] assms(2) c show ?thesis
    by auto
qed

lemma bytes_unpadded:
  assumes "convertbits data 5 8 False = Some bs"
  shows "bytes (Some bs) = Inr bs"
  using convertbits_unpadded_range [OF assms] by (simp add: bytes_def in_range_def)

lemma invalid_hrp_not_invalid_lnurl: "invalid_hrp x \<noteq> ValueError (lit ''Invalid LNURL.'')"
  by (simp add: invalid_hrp_def lit_def)

text \<open>
  C7, as the code has it. The decode path raises \<^verbatim>\<open>ValueError\<close> with one of two
  messages. The first, \<^verbatim>\<open>Invalid Human Readable Prefix (HRP): ...\<close>, is raised
  whenever \<^verbatim>\<open>bech32_decode\<close> rejects the string, with \<^verbatim>\<open>None\<close> in the place of
  the prefix, and whenever it accepts a string whose prefix is not \<^verbatim>\<open>lnurl\<close>, with
  that prefix. A string whose checksum does not verify is always rejected, whatever
  stands before its last \<^verbatim>\<open>1\<close>, so a corrupted checksum under the prefix
  \<^verbatim>\<open>lnurl\<close> gets the first message with \<^verbatim>\<open>None\<close>; and a string that is accepted
  has a checksum that verifies. The second message, \<^verbatim>\<open>Invalid LNURL.\<close>, is raised
  when the payload is not valid UTF-8; the two messages differ.
\<close>

theorem lnurl_decode_errors:
  "(bech32_decode (strip_scheme s) = (None, None) \<longrightarrow>
      lnurl_decode s = Inl (invalid_hrp None)) \<and>
   (let bech = lower (strip_scheme s); pos = rfind bech 49
    in \<not> bech32_verify_checksum (take (nat pos) bech)
           (map (find CHARSET) (drop (nat pos + 1) bech)) \<longrightarrow>
         lnurl_decode s = Inl (invalid_hrp None)) \<and>
   (\<forall>h data. bech32_decode (strip_scheme s) = (Some h, Some data) \<longrightarrow>
      (let bech = lower (strip_scheme s)
       in h = take (length h) bech \<and>
          bech32_verify_checksum h (map (find CHARSET) (drop (length h + 1) bech))) \<and>
      (h \<noteq> lit ''lnurl'' \<longrightarrow> lnurl_decode s = Inl (invalid_hrp (Some h))) \<and>
      (h = lit ''lnurl'' \<longrightarrow>
         (\<forall>bs. convertbits data 5 8 False = Some bs \<and> utf8_decode bs = None \<longrightarrow>
            lnurl_decode s = Inl (ValueError (lit ''Invalid LNURL.''))))) \<and>
   invalid_hrp None = ValueError (lit ''Invalid Human Readable Prefix (HRP): None.'') \<and>
   (\<forall>h. invalid_hrp (Some h) =
          ValueError (lit ''Invalid Human Readable Prefix (HRP): '' @ h @ lit ''.'')) \<and>
   (\<forall>x. invalid_hrp x \<noteq> ValueError (lit ''Invalid LNURL.''))"
proof (intro conjI allI impI)
  assume "bech32_decode (strip_scheme s) = (None, None)"
  then show "lnurl_decode s = Inl (invalid_hrp None)"
    by (simp add: lnurl_decode_def bech32_decode_tools_def)
next
  show "let bech = lower (strip_scheme s); pos = rfind bech 49
    in \<not> bech32_verify_checksum (take (nat pos) bech)
           (map (find CHARSET) (drop (nat pos + 1) bech)) \<longrightarrow>
         lnurl_decode s = Inl (invalid_hrp None)"
    unfolding Let_def
  proof
    assume "\<not> bech32_verify_checksum
               (take (nat (rfind (lower (strip_scheme s)) 49)) (lower (strip_scheme s)))
               (map (find CHARSET)
                  (drop (nat (rfind (lower (strip_scheme s)) 49) + 1) (lower (strip_scheme s))))"
    then have "bech32_decode (strip_scheme s) = (None, None)"
      by (rule bech32_decode_bad_checksum)
    then show "lnurl_decode s = Inl (invalid_hrp None)"
      by (simp add: lnurl_decode_def bech32_decode_tools_def)
  qed
next
  fix h data
  assume a: "bech32_decode (strip_scheme s) = (Some h, Some data)"
  from bech32_decode_accepted [OF a]
  show "let bech = lower (strip_scheme s)
       in h = take (length h) bech \<and>
          bech32_verify_checksum h (map (find CHARSET) (drop (length h + 1) bech))"
    by (simp add: Let_def)
  {
    assume "h \<noteq> lit ''lnurl''"
    with a show "lnurl_decode s = Inl (invalid_hrp (Some h))"
      by (simp add: lnurl_decode_def bech32_decode_tools_def)
  }
  {
    fix bs
    assume h: "h = lit ''lnurl''"
      and cb: "convertbits data 5 8 False = Some bs \<and> utf8_decode bs = None"
    then have "bytes (Some bs) = Inr bs"
      using bytes_unpadded [of data bs] by blast
    with a h cb show "lnurl_decode s = Inl (ValueError (lit ''Invalid LNURL.''))"
      by (simp add: lnurl_decode_def bech32_decode_tools_def)
  }
next
  show "invalid_hrp None = ValueError (lit ''Invalid Human Readable Prefix (HRP): None.'')"
    by (simp add: invalid_hrp_def format_hrp_def lit_def)
next
  fix h
  show "invalid_hrp (Some h) =
          ValueError (lit ''Invalid Human Readable Prefix (HRP): '' @ h @ lit ''.'')"
    by (simp add: invalid_hrp_def format_hrp_def)
next
  fix x
  show "invalid_hrp x \<noteq> ValueError (lit ''Invalid LNURL.'')"
    by (rule invalid_hrp_not_invalid_lnurl)
qed

theorem lnurl_decode_errors_witness:
  "lnurl_decode (lit ''LNURL1VY3E5P6L'') = Inl (invalid_hrp None) \<and>
   lnurl_decode (lit ''bc1dp5s8mf45h'') = Inl (invalid_hrp (Some (lit ''bc''))) \<and>
   lnurl_decode (lit ''lnurl1ludh0vcf'') = Inl (ValueError (lit ''Invalid LNURL.'')) \<and>
   lnurl_decode (lit ''1VY3E5P6K'') = Inl (invalid_hrp None)"
proof (intro conjI)
  have "\<not> bech32_verify_checksum
          (take (nat (rfind (lower (strip_scheme (lit ''LNURL1VY3E5P6L''))) 49))
             (lower (strip_scheme (lit ''LNURL1VY3E5P6L''))))
          (map (find CHARSET)
             (drop (nat (rfind (lower (strip_scheme (lit ''LNURL1VY3E5P6L''))) 49) + 1)
                (lower (strip_scheme (lit ''LNURL1VY3E5P6L'')))))"
    by code_simp
  with lnurl_decode_errors [of "lit ''LNURL1VY3E5P6L''"]
  show "lnurl_decode (lit ''LNURL1VY3E5P6L'') = Inl (invalid_hrp None)"
    unfolding Let_def by blast
  have "bech32_decode (strip_scheme (lit ''bc1dp5s8mf45h'')) = (Some (lit ''bc''), Some [13, 1, 20, 16])"
    by code_simp
  moreover have "lit ''bc'' \<noteq> lit ''lnurl''"
    by simp
  ultimately show "lnurl_decode (lit ''bc1dp5s8mf45h'') = Inl (invalid_hrp (Some (lit ''bc'')))"
    using lnurl_decode_errors [of "lit ''bc1dp5s8mf45h''"] by blast
  have "bech32_decode (strip_scheme (lit ''lnurl1ludh0vcf'')) = (Some (lit ''lnurl''), Some [31, 28])"
    by code_simp
  moreover have "convertbits [31, 28] 5 8 False = Some [255] \<and> utf8_decode [255] = None"
    by code_simp
  ultimately show "lnurl_decode (lit ''lnurl1ludh0vcf'') = Inl (ValueError (lit ''Invalid LNURL.''))"
    using lnurl_decode_errors [of "lit ''lnurl1ludh0vcf''"] by blast
  have "bech32_decode (strip_scheme (lit ''1VY3E5P6K'')) = (None, None)"
    by code_simp
  with lnurl_decode_errors [of "lit ''1VY3E5P6K''"]
  show "lnurl_decode (lit ''1VY3E5P6K'') = Inl (invalid_hrp None)"
    by blast
qed

text \<open>
  The claim C7 as stated fails: \<^verbatim>\<open>LNURL1VY3E5P6K\<close> encodes \<^verbatim>\<open>a\<close>; with its last
  character changed the prefix is still \<^verbatim>\<open>lnurl\<close> and only the checksum is wrong,
  yet the error is the invalid-prefix one, it names \<^verbatim>\<open>None\<close> and not the prefix, and
  it is the very error of a string that has no prefix at all.
\<close>

theorem lnurl_decode_errors_counterexample:
  "lnurl_decode (lit ''LNURL1VY3E5P6K'') = Inr (lit ''a'') \<and>
   lnurl_decode (lit ''LNURL1VY3E5P6L'') =
     Inl (ValueError (lit ''Invalid Human Readable Prefix (HRP): None.'')) \<and>
   lnurl_decode (lit ''1VY3E5P6K'') =
     Inl (ValueError (lit ''Invalid Human Readable Prefix (HRP): None.''))"
  by code_simp

end
